theory Spec2Isabelle
  imports Main "HOL-Library.Word" "HOL-Library.Multiset"
begin

unbundle bit_operations_syntax

section \<open>JavaScript strings and values\<close>

text \<open>
  A JavaScript string is a sequence of UTF-16 code units; \<open>length\<close> counts code units
  and \<open>charCodeAt\<close> reads one. Literals of the source are written \<open>js ''...''\<close>.
\<close>

type_synonym jschar = "16 word"
type_synonym jsstring = "jschar list"

definition js :: "string \<Rightarrow> jsstring" where
  "js s = map of_char s"

definition charCode :: "jschar \<Rightarrow> int" where
  "charCode c = uint c"

text \<open>
  \<open>String.prototype.trim\<close> removes the code points of WhiteSpace and LineTerminator
  from both ends: U+0009..U+000D, U+0020, U+00A0, U+1680, U+2000..U+200A, U+2028, U+2029,
  U+202F, U+205F, U+3000 and U+FEFF.
\<close>

definition isWhiteSpace :: "jschar \<Rightarrow> bool" where
  "isWhiteSpace c =
     (let n = unat c in
        (9 \<le> n \<and> n \<le> 13) \<or> n = 32 \<or> n = 160 \<or> n = 5760 \<or> (8192 \<le> n \<and> n \<le> 8202)
        \<or> n = 8232 \<or> n = 8233 \<or> n = 8239 \<or> n = 8287 \<or> n = 12288 \<or> n = 65279)"

definition trim :: "jsstring \<Rightarrow> jsstring" where
  "trim s = rev (dropWhile isWhiteSpace (rev (dropWhile isWhiteSpace s)))"

text \<open>
  The values a request body can hold after \<open>JSON.parse\<close> and destructuring: a missing
  key reads as \<open>undefined\<close>. \<open>JNum n\<close> is the integer-valued number \<open>n\<close>, of absolute
  value below \<open>10^21\<close> (the API's style identifiers are integers; fractional numbers, and
  the larger numbers that JavaScript prints in exponent notation, are outside the
  model). \<open>JObj\<close> lists the own properties of a plain object; the first binding of a
  key counts.
\<close>

datatype jsval =
    JUndefined
  | JNull
  | JBool bool
  | JNum int
  | JStr jsstring
  | JArr "jsval list"
  | JObj "(jsstring \<times> jsval) list"

datatype jserror = TypeError jsstring | Error jsstring

fun message :: "jserror \<Rightarrow> jsstring" where
  "message (TypeError m) = m"
| "message (Error m) = m"

text \<open>Truthiness, as \<open>!v\<close>, \<open>v && ...\<close> and \<open>v ? ... : ...\<close> test it.\<close>

fun truthy :: "jsval \<Rightarrow> bool" where
  "truthy JUndefined = False"
| "truthy JNull = False"
| "truthy (JBool b) = b"
| "truthy (JNum n) = (n \<noteq> 0)"
| "truthy (JStr s) = (s \<noteq> [])"
| "truthy (JArr xs) = True"
| "truthy (JObj kvs) = True"

text \<open>Decimal notation of an integer, as \<open>Number.prototype.toString\<close> prints it
  (below \<open>10^21\<close> in absolute value).\<close>

fun digits :: "nat \<Rightarrow> jsstring" where
  "digits n = (if n < 10 then [of_nat (48 + n)] else digits (n div 10) @ [of_nat (48 + n mod 10)])"

declare digits.simps [simp del]

definition NumberToString :: "int \<Rightarrow> jsstring" where
  "NumberToString n = (if n < 0 then js ''-'' @ digits (nat (- n)) else digits (nat n))"

fun joinWith :: "jsstring \<Rightarrow> jsstring list \<Rightarrow> jsstring" where
  "joinWith sep [] = []"
| "joinWith sep [s] = s"
| "joinWith sep (s # t # ss) = s @ sep @ joinWith sep (t # ss)"

text \<open>
  The abstract operation ToString, which template literals, property keys and
  \<open>Array.prototype.join\<close> apply. An array prints as its elements joined by commas, where
  \<open>undefined\<close> and \<open>null\<close> elements print as the empty string. A plain object that came
  from JSON prints as \<open>[object Object]\<close> through the inherited \<open>toString\<close>; when it has
  an own property named \<open>toString\<close>, that property is not callable and the inherited
  \<open>valueOf\<close> returns the object itself, so OrdinaryToPrimitive ends in a TypeError
  (the message is V8's).
\<close>

definition cannotConvert :: jserror where
  "cannotConvert = TypeError (js ''Cannot convert object to primitive value'')"

fun ToString :: "jsval \<Rightarrow> jserror + jsstring"
  and elementStrings :: "jsval list \<Rightarrow> jserror + jsstring list" where
  "ToString JUndefined = Inr (js ''undefined'')"
| "ToString JNull = Inr (js ''null'')"
| "ToString (JBool b) = Inr (if b then js ''true'' else js ''false'')"
| "ToString (JNum n) = Inr (NumberToString n)"
| "ToString (JStr s) = Inr s"
| "ToString (JArr xs) =
     (case elementStrings xs of Inl e \<Rightarrow> Inl e | Inr ss \<Rightarrow> Inr (joinWith (js '','') ss))"
| "ToString (JObj kvs) =
     (if js ''toString'' \<in> set (map fst kvs) then Inl cannotConvert
      else Inr (js ''[object Object]''))"
| "elementStrings [] = Inr []"
| "elementStrings (x # xs) =
     (case (if x = JUndefined \<or> x = JNull then Inr [] else ToString x) of
        Inl e \<Rightarrow> Inl e
      | Inr s \<Rightarrow> (case elementStrings xs of Inl e \<Rightarrow> Inl e | Inr ss \<Rightarrow> Inr (s # ss)))"

text \<open>\<open>xs.join(sep)\<close> on an array.\<close>

definition Array_join :: "jsstring \<Rightarrow> jsval list \<Rightarrow> jserror + jsstring" where
  "Array_join sep xs =
     (case elementStrings xs of Inl e \<Rightarrow> Inl e | Inr ss \<Rightarrow> Inr (joinWith sep ss))"

section \<open>Seed derivation\<close>

text \<open>
  \<^verbatim>\<open>
  function generateSeed(prompt, style) {
    let hash = 0;
    const str = `${prompt}-${style}`;
    for (let i = 0; i < str.length; i++) {
      const char = str.charCodeAt(i);
      hash = ((hash << 5) - hash) + char;
      hash = hash & hash; // Convert to 32-bit integer
    }
    return Math.abs(hash);
  }
  \<close>
  \<open>ToInt32\<close> wraps a number to the signed 32-bit range. \<open><<\<close> and \<open>&\<close> apply it to
  their operands and to their result; \<open>-\<close> and \<open>+\<close> are the exact operations on numbers
  (the operands stay far below \<open>2^53\<close>), and \<open>Math.abs\<close> is not wrapped.
\<close>

definition ToInt32 :: "int \<Rightarrow> int" where
  "ToInt32 x = (x + 2 ^ 31) mod 2 ^ 32 - 2 ^ 31"

definition shiftLeft :: "int \<Rightarrow> nat \<Rightarrow> int" where
  "shiftLeft x k = ToInt32 (ToInt32 x * 2 ^ (k mod 32))"

definition bitwiseAnd :: "int \<Rightarrow> int \<Rightarrow> int" where
  "bitwiseAnd x y = ToInt32 (ToInt32 x AND ToInt32 y)"

fun hashLoop :: "jsstring \<Rightarrow> int \<Rightarrow> int" where
  "hashLoop [] hash = hash"
| "hashLoop (c # cs) hash =
     (let hash1 = (shiftLeft hash 5 - hash) + charCode c;
          hash2 = bitwiseAnd hash1 hash1
      in hashLoop cs hash2)"

definition generateSeed :: "jsstring \<Rightarrow> jsval \<Rightarrow> jserror + int" where
  "generateSeed prompt style =
     (case ToString style of
        Inl e \<Rightarrow> Inl e
      | Inr styleText \<Rightarrow> Inr \<bar>hashLoop (prompt @ js ''-'' @ styleText) 0\<bar>)"

text \<open>The rolling hash in the words of the specification: \<open>hash = hash*31 + charCode\<close>,
  wrapped to a signed 32-bit integer at each step.\<close>

definition spec_rolling_hash :: "jsstring \<Rightarrow> int" where
  "spec_rolling_hash str = fold (\<lambda>c hash. ToInt32 (hash * 31 + charCode c)) str 0"

section \<open>Request validation\<close>

text \<open>
  \<^verbatim>\<open>
  const STYLE_PROMPTS = {
    1: "simple flat icon design, minimal, clean lines, solid colors, professional icon style",
    2: "pastel colors, soft gradients, gentle rounded shapes, cute aesthetic, dreamy icon style",
    3: "bubble style, glossy, shiny reflections, translucent, playful, vibrant icon style",
    4: "neon style, glowing edges, dark background, cyberpunk aesthetic, luminous icon style",
    5: "3D rendered, isometric view, depth and shadows, modern professional icon style"
  };
  \<close>
  The keys of an object literal are strings.
\<close>

definition STYLE_PROMPTS :: "(jsstring \<times> jsstring) list" where
  "STYLE_PROMPTS =
     [(js ''1'', js ''simple flat icon design, minimal, clean lines, solid colors, professional icon style''),
      (js ''2'', js ''pastel colors, soft gradients, gentle rounded shapes, cute aesthetic, dreamy icon style''),
      (js ''3'', js ''bubble style, glossy, shiny reflections, translucent, playful, vibrant icon style''),
      (js ''4'', js ''neon style, glowing edges, dark background, cyberpunk aesthetic, luminous icon style''),
      (js ''5'', js ''3D rendered, isometric view, depth and shadows, modern professional icon style'')]"

text \<open>
  \<open>STYLE_PROMPTS[style]\<close> is an ordinary property read: the key is the string form of
  \<open>style\<close>, and a key that is not an own property is looked up on \<open>Object.prototype\<close>,
  whose members (functions, and the accessor \<open>__proto__\<close>) are all truthy. A read has
  three outcomes: the text of an own property, an inherited member, or \<open>undefined\<close>.
\<close>

definition Object_prototype_names :: "jsstring list" where
  "Object_prototype_names =
     map js [''constructor'', ''hasOwnProperty'', ''isPrototypeOf'', ''propertyIsEnumerable'',
             ''toLocaleString'', ''toString'', ''valueOf'', ''__proto__'',
             ''__defineGetter__'', ''__defineSetter__'', ''__lookupGetter__'', ''__lookupSetter__'']"

datatype property = OwnText jsstring | Inherited jsstring | Absent

fun truthyProperty :: "property \<Rightarrow> bool" where
  "truthyProperty (OwnText t) = (t \<noteq> [])"
| "truthyProperty (Inherited name) = True"
| "truthyProperty Absent = False"

definition getProperty :: "(jsstring \<times> jsstring) list \<Rightarrow> jsstring \<Rightarrow> property" where
  "getProperty obj key =
     (case map_of obj key of
        Some t \<Rightarrow> OwnText t
      | None \<Rightarrow> if key \<in> set Object_prototype_names then Inherited key else Absent)"

definition STYLE_PROMPTS_at :: "jsval \<Rightarrow> jserror + property" where
  "STYLE_PROMPTS_at style =
     (case ToString style of Inl e \<Rightarrow> Inl e | Inr key \<Rightarrow> Inr (getProperty STYLE_PROMPTS key))"

text \<open>
  \<open>v.length\<close>: the number of code units of a string, the number of elements of an array,
  the own property \<open>length\<close> of a plain object if it has one; booleans and numbers have
  none, and reading a property of \<open>undefined\<close> or \<open>null\<close> throws.
\<close>

definition cannotRead :: "string \<Rightarrow> jserror" where
  "cannotRead what =
     TypeError (js ''Cannot read properties of '' @ js what @ js '' (reading ''
                @ [39] @ js ''length'' @ [39] @ js '')'')"

fun getLength :: "jsval \<Rightarrow> jserror + jsval" where
  "getLength JUndefined = Inl (cannotRead ''undefined'')"
| "getLength JNull = Inl (cannotRead ''null'')"
| "getLength (JBool b) = Inr JUndefined"
| "getLength (JNum n) = Inr JUndefined"
| "getLength (JStr s) = Inr (JNum (int (length s)))"
| "getLength (JArr xs) = Inr (JNum (int (length xs)))"
| "getLength (JObj kvs) =
     Inr (case map_of kvs (js ''length'') of None \<Rightarrow> JUndefined | Some v \<Rightarrow> v)"

text \<open>
  \<open>v > k\<close> for a numeric literal \<open>k\<close>: \<open>undefined\<close> converts to NaN (every comparison
  is false), \<open>null\<close> to 0, a boolean to 0 or 1. A string is converted by StringToNumber;
  its grammar and rounding are not modelled, and the comparison of a string with \<open>k\<close> is
  the parameter \<open>strGt\<close> (reached only through an object whose own \<open>length\<close> is
  not a number). Arrays and objects are first converted to their string form, which
  can throw.
\<close>

fun greaterThan :: "(jsstring \<Rightarrow> int \<Rightarrow> bool) \<Rightarrow> jsval \<Rightarrow> int \<Rightarrow> jserror + bool" where
  "greaterThan strGt JUndefined k = Inr False"
| "greaterThan strGt JNull k = Inr (0 > k)"
| "greaterThan strGt (JBool b) k = Inr ((if b then 1 else 0) > k)"
| "greaterThan strGt (JNum n) k = Inr (n > k)"
| "greaterThan strGt (JStr s) k = Inr (strGt s k)"
| "greaterThan strGt (JArr xs) k =
     (case ToString (JArr xs) of Inl e \<Rightarrow> Inl e | Inr s \<Rightarrow> Inr (strGt s k))"
| "greaterThan strGt (JObj kvs) k =
     (case ToString (JObj kvs) of Inl e \<Rightarrow> Inl e | Inr s \<Rightarrow> Inr (strGt s k))"

definition lengthExceeds :: "(jsstring \<Rightarrow> int \<Rightarrow> bool) \<Rightarrow> jsval \<Rightarrow> int \<Rightarrow> jserror + bool" where
  "lengthExceeds strGt v k =
     (case getLength v of Inl e \<Rightarrow> Inl e | Inr len \<Rightarrow> greaterThan strGt len k)"

fun isArray :: "jsval \<Rightarrow> bool" where
  "isArray (JArr xs) = True"
| "isArray v = False"

text \<open>\<open>typeof prompt !== 'string' || prompt.trim().length === 0\<close>\<close>

fun notStringOrBlank :: "jsval \<Rightarrow> bool" where
  "notStringOrBlank (JStr s) = (length (trim s) = 0)"
| "notStringOrBlank v = True"

definition promptRequired :: jsstring where
  "promptRequired = js ''Prompt is required and must be a non-empty string''"

definition promptTooLong :: jsstring where
  "promptTooLong = js ''Prompt must be less than 200 characters''"

definition invalidStyle :: jsstring where
  "invalidStyle = js ''Invalid style selection''"

definition colorsNotArray :: jsstring where
  "colorsNotArray = js ''Brand colors must be an array''"

definition tooManyColors :: jsstring where
  "tooManyColors = js ''Maximum 5 brand colors allowed''"

text \<open>
  \<^verbatim>\<open>
  function validateInput(prompt, style, brandColors) {
    const errors = [];
    if (!prompt || typeof prompt !== 'string' || prompt.trim().length === 0) {
      errors.push('Prompt is required and must be a non-empty string');
    }
    if (prompt && prompt.length > 200) {
      errors.push('Prompt must be less than 200 characters');
    }
    if (!style || !STYLE_PROMPTS[style]) {
      errors.push('Invalid style selection');
    }
    if (brandColors && !Array.isArray(brandColors)) {
      errors.push('Brand colors must be an array');
    }
    if (brandColors && brandColors.length > 5) {
      errors.push('Maximum 5 brand colors allowed');
    }
    return errors;
  }
  \<close>
  The five conditions are evaluated in order; each pushes at most one message, so the
  returned list is the concatenation of what each condition contributes. An exception
  in a condition leaves the function (\<open>Inl\<close>) and the list built so far is lost.
\<close>

text \<open>\<open>v && v.length > k\<close>\<close>

definition lengthOver :: "(jsstring \<Rightarrow> int \<Rightarrow> bool) \<Rightarrow> jsval \<Rightarrow> int \<Rightarrow> jserror + bool" where
  "lengthOver strGt v k = (if truthy v then lengthExceeds strGt v k else Inr False)"

text \<open>\<open>!style || !STYLE_PROMPTS[style]\<close>\<close>

definition styleUnknown :: "jsval \<Rightarrow> jserror + bool" where
  "styleUnknown style =
     (if \<not> truthy style then Inr True
      else case STYLE_PROMPTS_at style of
             Inl e \<Rightarrow> Inl e
           | Inr p \<Rightarrow> Inr (\<not> truthyProperty p))"

definition validateInput ::
  "(jsstring \<Rightarrow> int \<Rightarrow> bool) \<Rightarrow> jsval \<Rightarrow> jsval \<Rightarrow> jsval \<Rightarrow> jserror + jsstring list" where
  "validateInput strGt prompt style brandColors =
     (case lengthOver strGt prompt 200 of
        Inl e \<Rightarrow> Inl e
      | Inr long \<Rightarrow>
     (case styleUnknown style of
        Inl e \<Rightarrow> Inl e
      | Inr unknown \<Rightarrow>
     (case lengthOver strGt brandColors 5 of
        Inl e \<Rightarrow> Inl e
      | Inr many \<Rightarrow>
          Inr ((if \<not> truthy prompt \<or> notStringOrBlank prompt then [promptRequired] else [])
             @ (if long then [promptTooLong] else [])
             @ (if unknown then [invalidStyle] else [])
             @ (if truthy brandColors \<and> \<not> isArray brandColors then [colorsNotArray] else [])
             @ (if many then [tooManyColors] else [])))))"

text \<open>
  The three rules in the words of the specification: the prompt must be a string that
  after trimming is non-empty and at most 200 characters long; the style must be one of
  the identifiers 1 to 5; \<open>brandColors\<close>, if present, must be a sequence of at most 5
  entries.
\<close>

fun spec_prompt_ok :: "jsval \<Rightarrow> bool" where
  "spec_prompt_ok (JStr s) = (trim s \<noteq> [] \<and> length (trim s) \<le> 200)"
| "spec_prompt_ok v = False"

fun spec_style_ok :: "jsval \<Rightarrow> bool" where
  "spec_style_ok (JNum n) = (1 \<le> n \<and> n \<le> 5)"
| "spec_style_ok v = False"

fun spec_colors_ok :: "jsval \<Rightarrow> bool" where
  "spec_colors_ok JUndefined = True"
| "spec_colors_ok JNull = True"
| "spec_colors_ok (JArr xs) = (length xs \<le> 5)"
| "spec_colors_ok v = False"

definition promptFlagged :: "jsstring list \<Rightarrow> bool" where
  "promptFlagged errors = (promptRequired \<in> set errors \<or> promptTooLong \<in> set errors)"

definition colorsFlagged :: "jsstring list \<Rightarrow> bool" where
  "colorsFlagged errors = (colorsNotArray \<in> set errors \<or> tooManyColors \<in> set errors)"

section \<open>Retry with exponential backoff\<close>

text \<open>
  \<^verbatim>\<open>
  const MAX_RETRIES = 2;
  const RETRY_DELAY_MS = 1000;

  async function retryWithBackoff(fn, maxRetries = MAX_RETRIES) {
    for (let attempt = 0; attempt <= maxRetries; attempt++) {
      try {
        return await fn();
      } catch (error) {
        if (attempt === maxRetries) {
          throw error;
        }
        const delay = RETRY_DELAY_MS * Math.pow(2, attempt);
        console.log(`Attempt ${attempt + 1} failed, retrying in ${delay}ms...`);
        await new Promise(resolve => setTimeout(resolve, delay));
      }
    }
  }
  \<close>
  The handler awaits one thing at a time, so its run is a sequence of steps over a world:
  a clock in milliseconds, the trace of what happened and when, and the state of whatever
  the awaited operation talks to. An operation maps that external state to its outcome
  (\<open>Inl\<close> a rejection, \<open>Inr\<close> a result), the time it took and the new external state;
  every call is taken to settle. The trace records each call of \<open>fn\<close>, how it settled,
  each timer, and each task the handler's loop starts.
\<close>

definition MAX_RETRIES :: nat where
  "MAX_RETRIES = 2"

definition RETRY_DELAY_MS :: nat where
  "RETRY_DELAY_MS = 1000"

record input =
  in_prompt :: jsstring
  in_seed :: "int option"

datatype event = Launch nat input | Invoke nat | Settle bool | Sleep nat

record 's world =
  clock :: nat
  trace :: "(nat \<times> event) list"
  ext :: 's

type_synonym ('s, 'e, 'a) operation = "'s \<Rightarrow> ('e + 'a) \<times> nat \<times> 's"

definition logEvent :: "event \<Rightarrow> 's world \<Rightarrow> 's world" where
  "logEvent ev w = w\<lparr>trace := trace w @ [(clock w, ev)]\<rparr>"

text \<open>\<open>await new Promise(resolve => setTimeout(resolve, ms))\<close>\<close>

definition sleep :: "nat \<Rightarrow> 's world \<Rightarrow> 's world" where
  "sleep ms w = (logEvent (Sleep ms) w)\<lparr>clock := clock w + ms\<rparr>"

text \<open>\<open>await fn()\<close> on the given attempt: the call is recorded when it is issued and
  when it settles.\<close>

definition await :: "('s, 'e, 'a) operation \<Rightarrow> nat \<Rightarrow> 's world \<Rightarrow> ('e + 'a) \<times> 's world" where
  "await fn attempt w =
     (case fn (ext w) of
        (outcome, duration, s) \<Rightarrow>
          (outcome,
           logEvent (Settle (\<not> isl outcome))
             ((logEvent (Invoke attempt) w)\<lparr>clock := clock w + duration, ext := s\<rparr>)))"

text \<open>The loop of \<open>retryWithBackoff\<close>. Falling out of the loop returns \<open>undefined\<close>,
  which is \<open>Inr None\<close>; a returned value \<open>v\<close> is \<open>Inr (Some v)\<close>.\<close>

function retryLoop ::
  "('s, 'e, 'a) operation \<Rightarrow> nat \<Rightarrow> nat \<Rightarrow> 's world \<Rightarrow> ('e + 'a option) \<times> 's world" where
  "retryLoop fn maxRetries attempt w =
     (if attempt \<le> maxRetries then
        (case await fn attempt w of
           (Inr v, w1) \<Rightarrow> (Inr (Some v), w1)
         | (Inl error, w1) \<Rightarrow>
             if attempt = maxRetries then (Inl error, w1)
             else retryLoop fn maxRetries (attempt + 1)
                    (sleep (RETRY_DELAY_MS * 2 ^ attempt) w1))
      else (Inr None, w))"
  by pat_completeness auto
termination
  by (relation "measure (\<lambda>(fn, maxRetries, attempt, w). Suc maxRetries - attempt)") auto

declare retryLoop.simps [simp del]

definition retryWithBackoff ::
  "('s, 'e, 'a) operation \<Rightarrow> nat \<Rightarrow> 's world \<Rightarrow> ('e + 'a option) \<times> 's world" where
  "retryWithBackoff fn maxRetries w = retryLoop fn maxRetries 0 w"

text \<open>
  What successive calls of an operation do, starting from an external state: the state
  before the \<open>k\<close>-th call and the outcome of that call (\<open>k\<close> counts from 0).
\<close>

primrec stateBefore :: "('s, 'e, 'a) operation \<Rightarrow> 's \<Rightarrow> nat \<Rightarrow> 's" where
  "stateBefore fn s 0 = s"
| "stateBefore fn s (Suc k) = snd (snd (fn (stateBefore fn s k)))"

definition outcomeOf :: "('s, 'e, 'a) operation \<Rightarrow> 's \<Rightarrow> nat \<Rightarrow> 'e + 'a" where
  "outcomeOf fn s k = fst (fn (stateBefore fn s k))"

definition durationOf :: "('s, 'e, 'a) operation \<Rightarrow> 's \<Rightarrow> nat \<Rightarrow> nat" where
  "durationOf fn s k = fst (snd (fn (stateBefore fn s k)))"

text \<open>Readings of a trace: the attempts that were invoked, the delays that were slept,
  and the times at which attempts were invoked and settled.\<close>

fun invocations :: "(nat \<times> event) list \<Rightarrow> nat list" where
  "invocations [] = []"
| "invocations ((t, Invoke k) # tr) = k # invocations tr"
| "invocations (e # tr) = invocations tr"

fun delays :: "(nat \<times> event) list \<Rightarrow> nat list" where
  "delays [] = []"
| "delays ((t, Sleep ms) # tr) = ms # delays tr"
| "delays (e # tr) = delays tr"

fun invokeTimes :: "(nat \<times> event) list \<Rightarrow> nat list" where
  "invokeTimes [] = []"
| "invokeTimes ((t, Invoke k) # tr) = t # invokeTimes tr"
| "invokeTimes (e # tr) = invokeTimes tr"

fun settleTimes :: "(nat \<times> event) list \<Rightarrow> nat list" where
  "settleTimes [] = []"
| "settleTimes ((t, Settle ok) # tr) = t # settleTimes tr"
| "settleTimes (e # tr) = settleTimes tr"

fun launches :: "(nat \<times> event) list \<Rightarrow> (nat \<times> nat \<times> input) list" where
  "launches [] = []"
| "launches ((t, Launch i inp) # tr) = (t, i, inp) # launches tr"
| "launches (e # tr) = launches tr"

section \<open>The generation loop\<close>

text \<open>
  \<^verbatim>\<open>
  const ICON_VARIATIONS = [
    "variation 1, primary subject",
    "variation 2, alternative angle",
    "variation 3, different composition",
    "variation 4, unique perspective"
  ];
  \<close>
\<close>

definition ICON_VARIATIONS :: "jsstring list" where
  "ICON_VARIATIONS =
     [js ''variation 1, primary subject'',
      js ''variation 2, alternative angle'',
      js ''variation 3, different composition'',
      js ''variation 4, unique perspective'']"

text \<open>
  The image backend is outside the repository. Its behaviour in a run is the outcome of
  its \<open>k\<close>-th call (counted over the whole request) on the input it is given: how long
  the call takes, and a rejection (an \<open>Error\<close> with a message) or an output. An output is
  a single file reference or a sequence of them, each given by its string form.
\<close>

datatype model_output = Single jsstring | Many "jsstring list"

type_synonym backend = "nat \<Rightarrow> input \<Rightarrow> nat \<times> (jserror + model_output)"

definition replicate_run :: "backend \<Rightarrow> input \<Rightarrow> (nat, jserror, model_output) operation" where
  "replicate_run B inp k = (snd (B k inp), fst (B k inp), Suc k)"

text \<open>
  \<^verbatim>\<open>
  if (Array.isArray(output)) { imageUrl = String(output[0]); }
  else { imageUrl = String(output); }
  \<close>
\<close>

fun imageUrl :: "model_output option \<Rightarrow> jsstring" where
  "imageUrl None = js ''undefined''"
| "imageUrl (Some (Many [])) = js ''undefined''"
| "imageUrl (Some (Many (x # xs))) = x"
| "imageUrl (Some (Single x)) = x"

text \<open>
  \<^verbatim>\<open>
  const fullPrompt = `${prompt} icon, ${variation}, ${styleDescription}${colorInstruction},
     512x512, icon design, white background, centered, high quality`;
  \<close>
  (one line in the source).
\<close>

definition fullPrompt :: "jsstring \<Rightarrow> jsstring \<Rightarrow> jsstring \<Rightarrow> jsstring \<Rightarrow> jsstring" where
  "fullPrompt prompt variation styleDescription colorInstruction =
     prompt @ js '' icon, '' @ variation @ js '', '' @ styleDescription @ colorInstruction
       @ js '', 512x512, icon design, white background, centered, high quality''"

text \<open>The handler's constants of one request, as the loop body reads them; each is
  a string by the time it is spliced into the template.\<close>

record locals =
  l_prompt :: jsstring
  l_styleDescription :: jsstring
  l_colorInstruction :: jsstring
  l_baseSeed :: int

text \<open>The entries of \<open>results\<close> (\<open>{index, url, prompt, seed}\<close>) and of \<open>errors\<close>
  (\<open>{index, error: error.message}\<close>).\<close>

record generated =
  r_index :: nat
  r_url :: jsstring
  r_prompt :: jsstring
  r_seed :: int

record failed =
  e_index :: nat
  e_error :: jsstring

definition taskInput :: "locals \<Rightarrow> nat \<Rightarrow> input" where
  "taskInput L index =
     \<lparr>in_prompt = fullPrompt (l_prompt L) (ICON_VARIATIONS ! index)
                    (l_styleDescription L) (l_colorInstruction L),
      in_seed = Some (l_baseSeed L + int index)\<rparr>"

text \<open>
  One iteration of
  \<^verbatim>\<open>
  for (let index = 0; index < ICON_VARIATIONS.length; index++) {
    const variation = ICON_VARIATIONS[index];
    const iconSeed = baseSeed + index;
    try {
      const fullPrompt = ...;
      const output = await retryWithBackoff(async () => {
        return await replicate.run("black-forest-labs/flux-schnell",
          { input: { prompt: fullPrompt, ..., seed: iconSeed } });
      });
      ...
      results.push({ index: index, url: imageUrl, prompt: fullPrompt, seed: iconSeed });
    } catch (error) {
      errors.push({ index: index, error: error.message });
    }
  }
  \<close>
\<close>

definition generateIcon ::
  "backend \<Rightarrow> locals \<Rightarrow> nat \<Rightarrow> generated list \<times> failed list \<times> nat world
     \<Rightarrow> generated list \<times> failed list \<times> nat world" where
  "generateIcon B L index st =
     (case st of
        (results, errors, w) \<Rightarrow>
          (let inp = taskInput L index in
           case retryWithBackoff (replicate_run B inp) MAX_RETRIES (logEvent (Launch index inp) w) of
             (Inr out, w1) \<Rightarrow>
               (results @ [\<lparr>r_index = index, r_url = imageUrl out,
                             r_prompt = in_prompt inp, r_seed = l_baseSeed L + int index\<rparr>],
                errors, w1)
           | (Inl error, w1) \<Rightarrow>
               (results, errors @ [\<lparr>e_index = index, e_error = message error\<rparr>], w1)))"

function generateLoop ::
  "backend \<Rightarrow> locals \<Rightarrow> nat \<Rightarrow> generated list \<times> failed list \<times> nat world
     \<Rightarrow> generated list \<times> failed list \<times> nat world" where
  "generateLoop B L index st =
     (if index < length ICON_VARIATIONS
      then generateLoop B L (index + 1) (generateIcon B L index st)
      else st)"
  by pat_completeness auto
termination
  by (relation "measure (\<lambda>(B, L, index, st). length ICON_VARIATIONS - index)") auto

declare generateLoop.simps [simp del]

section \<open>Aggregation and responses\<close>

record response =
  statusCode :: nat
  body :: jsval

text \<open>A response body is the object handed to \<open>JSON.stringify\<close>, which leaves out every
  property whose value is \<open>undefined\<close>.\<close>

definition jsonObject :: "(jsstring \<times> jsval) list \<Rightarrow> jsval" where
  "jsonObject props = JObj (filter (\<lambda>(k, v). v \<noteq> JUndefined) props)"

fun fieldNames :: "jsval \<Rightarrow> jsstring list" where
  "fieldNames (JObj kvs) = map fst kvs"
| "fieldNames v = []"

fun field :: "jsval \<Rightarrow> jsstring \<Rightarrow> jsval" where
  "field (JObj kvs) k = (case map_of kvs k of None \<Rightarrow> JUndefined | Some v \<Rightarrow> v)"
| "field v k = JUndefined"

definition iconJson :: "generated \<Rightarrow> jsval" where
  "iconJson r =
     jsonObject [(js ''url'', JStr (r_url r)), (js ''prompt'', JStr (r_prompt r)),
                 (js ''seed'', JNum (r_seed r))]"

definition errorJson :: "failed \<Rightarrow> jsval" where
  "errorJson e =
     jsonObject [(js ''index'', JNum (int (e_index e))), (js ''error'', JStr (e_error e))]"

definition insufficient :: "nat \<Rightarrow> jserror" where
  "insufficient n =
     Error (js ''Failed to generate sufficient icons. Only '' @ NumberToString (int n)
            @ js ''/4 succeeded.'')"

text \<open>
  \<^verbatim>\<open>
  if (results.length >= 2) {
    return { statusCode: 200, headers, body: JSON.stringify({
        success: true,
        icons: results.sort((a, b) => a.index - b.index).map(r => ({
          url: r.url, prompt: r.prompt, seed: r.seed })),
        partial: results.length < 4,
        errors: errors.length > 0 ? errors : undefined }) };
  } else {
    throw new Error(`Failed to generate sufficient icons. Only ${results.length}/4 succeeded.`);
  }
  \<close>
  \<open>Array.prototype.sort\<close> is stable, as \<open>sort_key\<close> is.
\<close>

definition aggregate :: "generated list \<Rightarrow> failed list \<Rightarrow> jserror + response" where
  "aggregate results errors =
     (if length results \<ge> 2 then
        Inr \<lparr>statusCode = 200,
             body = jsonObject
               [(js ''success'', JBool True),
                (js ''icons'', JArr (map iconJson (sort_key r_index results))),
                (js ''partial'', JBool (length results < 4)),
                (js ''errors'', if length errors > 0 then JArr (map errorJson errors)
                                else JUndefined)]\<rparr>
      else Inl (insufficient (length results)))"

text \<open>\<open>s.includes(sub)\<close>\<close>

fun includes_str :: "jsstring \<Rightarrow> jsstring \<Rightarrow> bool" where
  "includes_str [] sub = (sub = [])"
| "includes_str (c # cs) sub = (take (length sub) (c # cs) = sub \<or> includes_str cs sub)"

text \<open>
  The outer \<open>catch\<close>:
  \<^verbatim>\<open>
  let errorMessage = 'Failed to generate icons';
  let statusCode = 500;
  if (error.message.includes('API key')) {
    errorMessage = 'API configuration error'; statusCode = 503;
  } else if (error.message.includes('timeout')) {
    errorMessage = 'Request timeout - please try again'; statusCode = 504;
  } else if (error.message.includes('rate limit')) {
    errorMessage = 'Rate limit exceeded - please wait a moment'; statusCode = 429;
  }
  return { statusCode: statusCode, headers,
           body: JSON.stringify({ error: errorMessage, details: error.message }) };
  \<close>
\<close>

definition errorBody :: "jsstring \<Rightarrow> jsstring \<Rightarrow> jsval" where
  "errorBody errorMessage details =
     jsonObject [(js ''error'', JStr errorMessage), (js ''details'', JStr details)]"

definition errorResponse :: "jserror \<Rightarrow> response" where
  "errorResponse error =
     (if includes_str (message error) (js ''API key'') then
        \<lparr>statusCode = 503, body = errorBody (js ''API configuration error'') (message error)\<rparr>
      else if includes_str (message error) (js ''timeout'') then
        \<lparr>statusCode = 504,
         body = errorBody (js ''Request timeout - please try again'') (message error)\<rparr>
      else if includes_str (message error) (js ''rate limit'') then
        \<lparr>statusCode = 429,
         body = errorBody (js ''Rate limit exceeded - please wait a moment'') (message error)\<rparr>
      else
        \<lparr>statusCode = 500, body = errorBody (js ''Failed to generate icons'') (message error)\<rparr>)"

section \<open>The handler\<close>

text \<open>How a property value prints in a template literal: an own text as itself, an
  inherited built-in function as V8 prints native functions (\<open>constructor\<close> is the
  function \<open>Object\<close>; \<open>__proto__\<close> reads as \<open>Object.prototype\<close>, an object), and
  \<open>undefined\<close> by name.\<close>

fun propertyText :: "property \<Rightarrow> jsstring" where
  "propertyText (OwnText t) = t"
| "propertyText (Inherited name) =
     (if name = js ''__proto__'' then js ''[object Object]''
      else js ''function '' @ (if name = js ''constructor'' then js ''Object'' else name)
           @ js ''() { [native code] }'')"
| "propertyText Absent = js ''undefined''"

definition notAFunction :: "string \<Rightarrow> jserror" where
  "notAFunction what = TypeError (js what @ js '' is not a function'')"

text \<open>
  \<^verbatim>\<open>
  const colorInstruction = brandColors && brandColors.length > 0
    ? `, using these exact colors: ${brandColors.join(', ')}, maintain color consistency`
    : '';
  \<close>
\<close>

definition colorInstructionOf :: "(jsstring \<Rightarrow> int \<Rightarrow> bool) \<Rightarrow> jsval \<Rightarrow> jserror + jsstring" where
  "colorInstructionOf strGt brandColors =
     (case lengthOver strGt brandColors 0 of
        Inl e \<Rightarrow> Inl e
      | Inr nonEmpty \<Rightarrow>
          if nonEmpty then
            (case brandColors of
               JArr xs \<Rightarrow>
                 (case Array_join (js '', '') xs of
                    Inl e \<Rightarrow> Inl e
                  | Inr colors \<Rightarrow>
                      Inr (js '', using these exact colors: '' @ colors
                           @ js '', maintain color consistency''))
             | _ \<Rightarrow> Inl (notAFunction ''brandColors.join''))
          else Inr [])"

text \<open>
  Between validation and the loop:
  \<^verbatim>\<open>
  const styleDescription = STYLE_PROMPTS[style];
  const replicate = new Replicate({ auth: process.env.REPLICATE_API_TOKEN });
  const baseSeed = generateSeed(prompt.trim(), style);
  const colorInstruction = ...;
  \<close>
  The constructor of the client is taken not to throw.
\<close>

definition prepare :: "(jsstring \<Rightarrow> int \<Rightarrow> bool) \<Rightarrow> jsval \<Rightarrow> jsval \<Rightarrow> jsval \<Rightarrow> jserror + locals" where
  "prepare strGt prompt style brandColors =
     (case STYLE_PROMPTS_at style of
        Inl e \<Rightarrow> Inl e
      | Inr styleDescription \<Rightarrow>
     (case prompt of
        JStr p \<Rightarrow>
          (case generateSeed (trim p) style of
             Inl e \<Rightarrow> Inl e
           | Inr baseSeed \<Rightarrow>
          (case colorInstructionOf strGt brandColors of
             Inl e \<Rightarrow> Inl e
           | Inr colorInstruction \<Rightarrow>
               Inr \<lparr>l_prompt = p, l_styleDescription = propertyText styleDescription,
                    l_colorInstruction = colorInstruction, l_baseSeed = baseSeed\<rparr>))
      | _ \<Rightarrow> Inl (notAFunction ''prompt.trim'')))"

text \<open>
  The \<open>try\<close> block of the handler for a POST request, from the destructured body on,
  and the handler with its \<open>catch\<close>. The tasks run from a world whose external state is
  the number of backend calls issued so far.
\<close>

definition validationFailed :: "jsstring list \<Rightarrow> response" where
  "validationFailed validationErrors =
     \<lparr>statusCode = 400,
      body = jsonObject [(js ''error'', JStr (js ''Validation failed'')),
                         (js ''details'', JArr (map JStr validationErrors))]\<rparr>"

definition handlerTry ::
  "(jsstring \<Rightarrow> int \<Rightarrow> bool) \<Rightarrow> backend \<Rightarrow> jsval \<Rightarrow> jsval \<Rightarrow> jsval \<Rightarrow> nat world
     \<Rightarrow> (jserror + response) \<times> nat world" where
  "handlerTry strGt B prompt style brandColors w =
     (case validateInput strGt prompt style brandColors of
        Inl e \<Rightarrow> (Inl e, w)
      | Inr validationErrors \<Rightarrow>
          if length validationErrors > 0 then (Inr (validationFailed validationErrors), w)
          else
            (case prepare strGt prompt style brandColors of
               Inl e \<Rightarrow> (Inl e, w)
             | Inr L \<Rightarrow>
                 (case generateLoop B L 0 ([], [], w) of
                    (results, errors, w1) \<Rightarrow> (aggregate results errors, w1))))"

definition handler ::
  "(jsstring \<Rightarrow> int \<Rightarrow> bool) \<Rightarrow> backend \<Rightarrow> jsval \<Rightarrow> jsval \<Rightarrow> jsval \<Rightarrow> nat world
     \<Rightarrow> response \<times> nat world" where
  "handler strGt B prompt style brandColors w =
     (case handlerTry strGt B prompt style brandColors w of
        (Inl error, w1) \<Rightarrow> (errorResponse error, w1)
      | (Inr r, w1) \<Rightarrow> (r, w1))"

definition start :: "nat world" where
  "start = \<lparr>clock = 0, trace = [], ext = 0\<rparr>"

section \<open>The handlers without retry\<close>

text \<open>
  The function in \<open>netlify/functions/generate-icons.js\<close> and the express route
  \<open>/api/generate-icons\<close> share their logic:
  \<^verbatim>\<open>
  if (!prompt || !style) { return 400 { error: 'Prompt and style are required' } }
  const styleDescription = STYLE_PROMPTS[style];
  if (!styleDescription) { return 400 { error: 'Invalid style selection' } }
  const colorInstruction = brandColors
    ? `, using color palette: ${brandColors.join(', ')}` : '';
  const promises = ICON_VARIATIONS.map(async (variation, index) => {
    const fullPrompt = `${prompt} icon, ${variation}, ${styleDescription}${colorInstruction},
       512x512, icon design, white background, centered`;
    const output = await replicate.run("black-forest-labs/flux-schnell",
       { input: { prompt: fullPrompt, ... } });
    ...
    return { index: index, url: imageUrl, prompt: fullPrompt };
  });
  const results = await Promise.all(promises);
  results.sort((a, b) => a.index - b.index);
  return 200 { success: true, icons: results.map(r => ({ url: r.url, prompt: r.prompt })) }
  } catch (error) { return 500 { error: 'Failed to generate icons', details: error.message } }
  \<close>
  The four callbacks start in index order and each issues its backend call before any
  call settles, so the call of task \<open>index\<close> is the backend's call number \<open>index\<close>. A
  promise is given by the time at which it settles and its outcome.
\<close>

record simple_icon =
  s_index :: nat
  s_url :: jsstring
  s_prompt :: jsstring

definition simpleColorInstruction :: "jsval \<Rightarrow> jserror + jsstring" where
  "simpleColorInstruction brandColors =
     (if truthy brandColors then
        (case brandColors of
           JArr xs \<Rightarrow>
             (case Array_join (js '', '') xs of
                Inl e \<Rightarrow> Inl e
              | Inr colors \<Rightarrow> Inr (js '', using color palette: '' @ colors))
         | _ \<Rightarrow> Inl (notAFunction ''brandColors.join''))
      else Inr [])"

definition simplePrompt :: "jsstring \<Rightarrow> jsstring \<Rightarrow> jsstring \<Rightarrow> jsstring \<Rightarrow> jsstring" where
  "simplePrompt prompt variation styleDescription colorInstruction =
     prompt @ js '' icon, '' @ variation @ js '', '' @ styleDescription @ colorInstruction
       @ js '', 512x512, icon design, white background, centered''"

definition simpleInput :: "jsstring \<Rightarrow> jsstring \<Rightarrow> jsstring \<Rightarrow> nat \<Rightarrow> input" where
  "simpleInput prompt styleDescription colorInstruction index =
     \<lparr>in_prompt = simplePrompt prompt (ICON_VARIATIONS ! index) styleDescription colorInstruction,
      in_seed = None\<rparr>"

text \<open>The promise of one callback. The template literal converts \<open>prompt\<close> to a string
  first; if that throws, the promise is rejected at once, without a backend call.\<close>

definition simpleTask ::
  "backend \<Rightarrow> jsval \<Rightarrow> jsstring \<Rightarrow> jsstring \<Rightarrow> nat \<Rightarrow> nat \<times> (jserror + simple_icon)" where
  "simpleTask B prompt styleDescription colorInstruction index =
     (case ToString prompt of
        Inl e \<Rightarrow> (0, Inl e)
      | Inr p \<Rightarrow>
          (case B index (simpleInput p styleDescription colorInstruction index) of
             (duration, Inl e) \<Rightarrow> (duration, Inl e)
           | (duration, Inr out) \<Rightarrow>
               (duration,
                Inr \<lparr>s_index = index, s_url = imageUrl (Some out),
                     s_prompt = in_prompt (simpleInput p styleDescription colorInstruction index)\<rparr>)))"

text \<open>\<open>Promise.all\<close>: fulfilled with all values, in the order of the promises, when every
  promise is fulfilled; otherwise rejected with the reason of the rejection that settled
  first.\<close>

fun rejections :: "(nat \<times> ('e + 'a)) list \<Rightarrow> (nat \<times> 'e) list" where
  "rejections [] = []"
| "rejections ((t, Inl e) # ps) = (t, e) # rejections ps"
| "rejections ((t, Inr v) # ps) = rejections ps"

fun fulfilled :: "(nat \<times> ('e + 'a)) list \<Rightarrow> 'a list" where
  "fulfilled [] = []"
| "fulfilled ((t, Inl e) # ps) = fulfilled ps"
| "fulfilled ((t, Inr v) # ps) = v # fulfilled ps"

definition Promise_all :: "(nat \<times> ('e + 'a)) list \<Rightarrow> 'e + 'a list" where
  "Promise_all ps =
     (case rejections ps of
        [] \<Rightarrow> Inr (fulfilled ps)
      | r # rs \<Rightarrow> Inl (snd (arg_min_list fst (r # rs))))"

definition simpleIconJson :: "simple_icon \<Rightarrow> jsval" where
  "simpleIconJson r = jsonObject [(js ''url'', JStr (s_url r)), (js ''prompt'', JStr (s_prompt r))]"

definition simpleTry :: "backend \<Rightarrow> jsval \<Rightarrow> jsval \<Rightarrow> jsval \<Rightarrow> jserror + response" where
  "simpleTry B prompt style brandColors =
     (if \<not> truthy prompt \<or> \<not> truthy style then
        Inr \<lparr>statusCode = 400,
             body = jsonObject [(js ''error'', JStr (js ''Prompt and style are required''))]\<rparr>
      else
        (case STYLE_PROMPTS_at style of
           Inl e \<Rightarrow> Inl e
         | Inr styleDescription \<Rightarrow>
             if \<not> truthyProperty styleDescription then
               Inr \<lparr>statusCode = 400,
                    body = jsonObject [(js ''error'', JStr (js ''Invalid style selection''))]\<rparr>
             else
               (case simpleColorInstruction brandColors of
                  Inl e \<Rightarrow> Inl e
                | Inr colorInstruction \<Rightarrow>
                    (case Promise_all
                            (map (simpleTask B prompt (propertyText styleDescription)
                                    colorInstruction)
                               [0..<length ICON_VARIATIONS]) of
                       Inl e \<Rightarrow> Inl e
                     | Inr results \<Rightarrow>
                         Inr \<lparr>statusCode = 200,
                              body = jsonObject
                                [(js ''success'', JBool True),
                                 (js ''icons'',
                                  JArr (map simpleIconJson (sort_key s_index results)))]\<rparr>))))"

definition simpleHandler :: "backend \<Rightarrow> jsval \<Rightarrow> jsval \<Rightarrow> jsval \<Rightarrow> response" where
  "simpleHandler B prompt style brandColors =
     (case simpleTry B prompt style brandColors of
        Inl error \<Rightarrow>
          \<lparr>statusCode = 500,
           body = errorBody (js ''Failed to generate icons'') (message error)\<rparr>
      | Inr r \<Rightarrow> r)"

section \<open>The planner and the runner in the words of the specification\<close>

text \<open>
  The specification builds a task's prompt by joining, in fixed order and separated by
  \<open>", "\<close>: the subject followed by \<open>" icon"\<close>, the variation descriptor, the style
  descriptor, the colour clause when there are colours, and the fixed suffix. It takes
  the trimmed prompt as the subject.
\<close>

definition joinedPrompt :: "jsstring \<Rightarrow> jsstring \<Rightarrow> jsstring \<Rightarrow> jsstring option \<Rightarrow> jsstring" where
  "joinedPrompt subject variation descriptor colors =
     joinWith (js '', '')
       ([subject @ js '' icon'', variation, descriptor]
        @ (case colors of
             None \<Rightarrow> []
           | Some c \<Rightarrow> [js ''using these exact colors: '' @ c @ js '', maintain color consistency''])
        @ [js ''512x512, icon design, white background, centered, high quality''])"

definition spec_fullPrompt :: "jsstring \<Rightarrow> jsstring \<Rightarrow> jsstring \<Rightarrow> jsstring option \<Rightarrow> jsstring" where
  "spec_fullPrompt prompt variation descriptor colors =
     joinedPrompt (trim prompt) variation descriptor colors"

text \<open>The comma-joined colours of a non-empty colour list, when they can be joined.\<close>

fun joinedColors :: "jsval \<Rightarrow> jsstring option" where
  "joinedColors (JArr xs) =
     (if xs = [] then None
      else case Array_join (js '', '') xs of Inl e \<Rightarrow> None | Inr c \<Rightarrow> Some c)"
| "joinedColors v = None"

text \<open>
  The specification lets all tasks launch concurrently: every task of the batch is
  launched before any backend call has settled.
\<close>

fun isSettle :: "event \<Rightarrow> bool" where
  "isSettle (Settle b) = True"
| "isSettle e = False"

definition spec_launchedTogether :: "(nat \<times> event) list \<Rightarrow> bool" where
  "spec_launchedTogether tr =
     (length (launches (takeWhile (\<lambda>(t, e). \<not> isSettle e) tr)) = length ICON_VARIATIONS)"

text \<open>
  What the loop owes each task, in terms of the backend's answers. With \<open>c i\<close> the
  number of backend calls issued before task \<open>i\<close> starts, task \<open>i\<close> is \<^emph>\<open>recorded\<close> when:
  it makes between one and three calls, those numbered from \<open>c i\<close> up to \<open>c (i + 1)\<close>;
  every call but its last was rejected; if its last call was fulfilled, \<open>results\<close> holds
  the entry with the task's index, the URL of that output and the task's prompt and
  seed; if its last call was rejected, it was the third, and \<open>errors\<close> holds the entry
  with the task's index and the message of that rejection; and the task is in \<open>errors\<close>
  exactly when its three calls were all rejected.
\<close>

definition recorded ::
  "backend \<Rightarrow> locals \<Rightarrow> (nat \<Rightarrow> nat) \<Rightarrow> generated list \<Rightarrow> failed list \<Rightarrow> nat \<Rightarrow> bool" where
  "recorded B L c results errors i =
     (c i < c (Suc i) \<and> c (Suc i) \<le> c i + 3
      \<and> (\<forall>k. c i \<le> k \<and> Suc k < c (Suc i) \<longrightarrow> isl (snd (B k (taskInput L i))))
      \<and> (case snd (B (c (Suc i) - 1) (taskInput L i)) of
            Inr out \<Rightarrow>
              \<lparr>r_index = i, r_url = imageUrl (Some out), r_prompt = in_prompt (taskInput L i),
               r_seed = l_baseSeed L + int i\<rparr> \<in> set results
          | Inl err \<Rightarrow>
              c (Suc i) = c i + 3 \<and> \<lparr>e_index = i, e_error = message err\<rparr> \<in> set errors)
      \<and> (i \<in> e_index ` set errors \<longleftrightarrow> (\<forall>j<3. isl (snd (B (c i + j) (taskInput L i))))))"

section \<open>Sample inputs\<close>

text \<open>An operation that fails on its first two calls and succeeds from the third on;
  every call takes 10 ms.\<close>

definition flaky :: "(nat, string, nat) operation" where
  "flaky k = (if k < 2 then Inl ''unavailable'' else Inr (7 * k), 10, Suc k)"

text \<open>The loop's constants of a request, a backend that rejects every call for the
  task with seed 103 (index 3), and a backend that rejects only the first call it
  receives; every call takes 10 ms.\<close>

definition sampleLocals :: locals where
  "sampleLocals = \<lparr>l_prompt = js ''Toys'', l_styleDescription = js ''flat'',
                    l_colorInstruction = [], l_baseSeed = 100\<rparr>"

definition failsLast :: backend where
  "failsLast k inp =
     (10, if in_seed inp = Some 103 then Inl (Error (js ''rate limit'')) else Inr (Single (js ''img'')))"

definition failsOnce :: backend where
  "failsOnce k inp = (10, if k = 0 then Inl (Error (js ''busy'')) else Inr (Single (js ''img'')))"

section \<open>Properties of the seed derivation\<close>

lemma ToInt32_idem: "ToInt32 (ToInt32 x) = ToInt32 x"
  by (simp add: ToInt32_def)

lemma ToInt32_add_left: "ToInt32 (ToInt32 x + y) = ToInt32 (x + y)"
proof -
  have "(ToInt32 x + y + 2 ^ 31) mod 2 ^ 32 = ((x + 2 ^ 31) mod 2 ^ 32 + y) mod (2 ^ 32 :: int)"
    by (simp add: ToInt32_def algebra_simps)
  also have "\<dots> = (x + 2 ^ 31 + y) mod 2 ^ 32"
    by (rule mod_add_left_eq)
  finally show ?thesis
    by (simp add: ToInt32_def algebra_simps)
qed

lemma ToInt32_mult_left: "ToInt32 (ToInt32 x * k) = ToInt32 (x * k)"
proof -
  have "ToInt32 x = x + 2 ^ 32 * (- ((x + 2 ^ 31) div 2 ^ 32))"
    unfolding ToInt32_def by (simp add: algebra_simps minus_mult_div_eq_mod [symmetric])
  then obtain q where q: "ToInt32 x = x + 2 ^ 32 * q" ..
  have "(ToInt32 x * k + 2 ^ 31) mod 2 ^ 32 = (x * k + 2 ^ 31 + 2 ^ 32 * (q * k)) mod (2 ^ 32 :: int)"
    by (simp add: q algebra_simps)
  also have "\<dots> = (x * k + 2 ^ 31) mod 2 ^ 32"
    by (rule mod_mult_self2)
  finally show ?thesis
    by (simp add: ToInt32_def)
qed

lemma ToInt32_range: "- (2 ^ 31) \<le> ToInt32 x \<and> ToInt32 x < 2 ^ 31"
proof -
  have "0 \<le> (x + 2 ^ 31) mod (2 ^ 32 :: int)" "(x + 2 ^ 31) mod (2 ^ 32 :: int) < 2 ^ 32"
    by simp_all
  then show ?thesis
    by (simp add: ToInt32_def)
qed

lemma bitwiseAnd_self: "bitwiseAnd x x = ToInt32 x"
  by (simp add: bitwiseAnd_def ToInt32_idem)

lemma hash_step: "bitwiseAnd ((shiftLeft hash 5 - hash) + c) ((shiftLeft hash 5 - hash) + c)
    = ToInt32 (hash * 31 + c)"
proof -
  have "ToInt32 (shiftLeft hash 5 - hash + c) = ToInt32 (ToInt32 (hash * 32) + (c - hash))"
    by (simp add: shiftLeft_def ToInt32_mult_left algebra_simps)
  also have "\<dots> = ToInt32 (hash * 32 + (c - hash))"
    by (rule ToInt32_add_left)
  also have "hash * 32 + (c - hash) = hash * 31 + c"
    by simp
  finally show ?thesis
    by (simp add: bitwiseAnd_self)
qed

lemma hashLoop_fold:
  "hashLoop str hash = fold (\<lambda>c hash. ToInt32 (hash * 31 + charCode c)) str hash"
  by (induction str arbitrary: hash) (simp_all add: Let_def hash_step)

lemma hashLoop_range: "0 \<le> \<bar>hashLoop str 0\<bar> \<and> \<bar>hashLoop str 0\<bar> \<le> 2 ^ 31"
proof (cases str rule: rev_cases)
  case Nil
  then show ?thesis by simp
next
  case (snoc cs c)
  have "hashLoop str 0 = ToInt32 (fold (\<lambda>c hash. ToInt32 (hash * 31 + charCode c)) cs 0 * 31 + charCode c)"
    by (simp add: snoc hashLoop_fold)
  then show ?thesis
    using ToInt32_range [of "fold (\<lambda>c hash. ToInt32 (hash * 31 + charCode c)) cs 0 * 31 + charCode c"]
    by (simp add: abs_le_iff)
qed

lemma generateSeed_spec:
  "generateSeed prompt style
     = (case ToString style of
          Inl e \<Rightarrow> Inl e
        | Inr styleText \<Rightarrow> Inr \<bar>spec_rolling_hash (prompt @ js ''-'' @ styleText)\<bar>)"
  by (simp add: generateSeed_def spec_rolling_hash_def hashLoop_fold split: sum.split)

lemma generateSeed_range:
  "(case generateSeed prompt style of Inl e \<Rightarrow> True | Inr seed \<Rightarrow> 0 \<le> seed \<and> seed \<le> 2 ^ 31)"
proof (cases "ToString style")
  case (Inl e)
  then show ?thesis by (simp add: generateSeed_def)
next
  case (Inr styleText)
  then show ?thesis
    using hashLoop_range [of "prompt @ js ''-'' @ styleText"]
    by (simp add: generateSeed_def)
qed

text \<open>
  C2: for every prompt string and every style, the seed is a function of its two
  arguments alone: whenever the style has a string form, the seed is the absolute value
  of the rolling hash \<open>hash*31 + charCode\<close>, wrapped to signed 32 bits at each step, over
  the code units of \<open>prompt-style\<close>, and it is a non-negative integer (at most \<open>2^31\<close>);
  for an integer style identifier the string form is its decimal notation.
\<close>

theorem generateSeed_rolling_hash:
  "generateSeed prompt (JNum n)
     = Inr \<bar>spec_rolling_hash (prompt @ js ''-'' @ NumberToString n)\<bar>
   \<and> generateSeed prompt style
     = (case ToString style of
          Inl e \<Rightarrow> Inl e
        | Inr styleText \<Rightarrow> Inr \<bar>spec_rolling_hash (prompt @ js ''-'' @ styleText)\<bar>)
   \<and> (case generateSeed prompt style of Inl e \<Rightarrow> True | Inr seed \<Rightarrow> 0 \<le> seed \<and> seed \<le> 2 ^ 31)"
proof -
  have "generateSeed prompt (JNum n)
     = Inr \<bar>spec_rolling_hash (prompt @ js ''-'' @ NumberToString n)\<bar>"
    by (simp add: generateSeed_spec)
  then show ?thesis
    using generateSeed_spec [of prompt style] generateSeed_range [of prompt style]
    by blast
qed

section \<open>Properties of request validation\<close>

lemma messages_distinct [simp]:
  "promptRequired \<noteq> promptTooLong" "promptRequired \<noteq> invalidStyle"
  "promptRequired \<noteq> colorsNotArray" "promptRequired \<noteq> tooManyColors"
  "promptTooLong \<noteq> invalidStyle" "promptTooLong \<noteq> colorsNotArray"
  "promptTooLong \<noteq> tooManyColors" "invalidStyle \<noteq> colorsNotArray"
  "invalidStyle \<noteq> tooManyColors" "colorsNotArray \<noteq> tooManyColors"
  "promptTooLong \<noteq> promptRequired" "invalidStyle \<noteq> promptRequired"
  "colorsNotArray \<noteq> promptRequired" "tooManyColors \<noteq> promptRequired"
  "invalidStyle \<noteq> promptTooLong" "colorsNotArray \<noteq> promptTooLong"
  "tooManyColors \<noteq> promptTooLong" "colorsNotArray \<noteq> invalidStyle"
  "tooManyColors \<noteq> invalidStyle" "tooManyColors \<noteq> colorsNotArray"
  by (simp_all add: promptRequired_def promptTooLong_def invalidStyle_def colorsNotArray_def
      tooManyColors_def js_def)

lemma validateInput_Inr:
  assumes "validateInput strGt p s b = Inr errors"
  shows "\<exists>long unknown many.
     lengthOver strGt p 200 = Inr long \<and>
     styleUnknown s = Inr unknown \<and>
     lengthOver strGt b 5 = Inr many \<and>
     errors = (if \<not> truthy p \<or> notStringOrBlank p then [promptRequired] else [])
            @ (if long then [promptTooLong] else [])
            @ (if unknown then [invalidStyle] else [])
            @ (if truthy b \<and> \<not> isArray b then [colorsNotArray] else [])
            @ (if many then [tooManyColors] else [])"
proof -
  obtain long where l: "lengthOver strGt p 200 = Inr long"
    using assms by (cases "lengthOver strGt p 200") (simp_all add: validateInput_def)
  obtain unknown where u: "styleUnknown s = Inr unknown"
    using assms by (cases "styleUnknown s") (simp_all add: validateInput_def l)
  obtain many where m: "lengthOver strGt b 5 = Inr many"
    using assms by (cases "lengthOver strGt b 5") (simp_all add: validateInput_def l u)
  have "Inr ((if \<not> truthy p \<or> notStringOrBlank p then [promptRequired] else [])
            @ (if long then [promptTooLong] else [])
            @ (if unknown then [invalidStyle] else [])
            @ (if truthy b \<and> \<not> isArray b then [colorsNotArray] else [])
            @ (if many then [tooManyColors] else [])) = (Inr errors :: jserror + jsstring list)"
    using assms unfolding validateInput_def l u m by (simp only: sum.case)
  then have "errors = (if \<not> truthy p \<or> notStringOrBlank p then [promptRequired] else [])
            @ (if long then [promptTooLong] else [])
            @ (if unknown then [invalidStyle] else [])
            @ (if truthy b \<and> \<not> isArray b then [colorsNotArray] else [])
            @ (if many then [tooManyColors] else [])"
    by (simp only: sum.inject)
  with l u m show ?thesis by blast
qed

lemma digits_shape: "\<exists>d rest. d < 10 \<and> digits n = of_nat (48 + d) # rest"
proof (induction n rule: digits.induct)
  case (1 n)
  show ?case
  proof (cases "n < 10")
    case True
    then show ?thesis by (subst digits.simps) auto
  next
    case False
    with 1 obtain d rest where "d < 10" "digits (n div 10) = of_nat (48 + d) # rest" by blast
    with False show ?thesis by (subst digits.simps) auto
  qed
qed

lemma digits_single: "digits n = [c] \<longleftrightarrow> n < 10 \<and> c = of_nat (48 + n)"
proof (cases "n < 10")
  case True
  then show ?thesis by (subst digits.simps) auto
next
  case False
  obtain d rest where "digits (n div 10) = of_nat (48 + d) # rest"
    using digits_shape by blast
  with False show ?thesis by (subst digits.simps) auto
qed

lemma NumberToString_single:
  "NumberToString n = [c] \<longleftrightarrow> 0 \<le> n \<and> n < 10 \<and> c = of_nat (48 + nat n)"
proof (cases "n < 0")
  case True
  obtain d rest where "digits (nat (- n)) = of_nat (48 + d) # rest"
    using digits_shape by blast
  with True show ?thesis by (simp add: NumberToString_def js_def)
next
  case False
  then show ?thesis by (auto simp: NumberToString_def digits_single)
qed

lemma style_keys: "fst ` set STYLE_PROMPTS = {[49], [50], [51], [52], [53]}"
  by (simp add: STYLE_PROMPTS_def js_def)

lemma small_nat_cases: "(k::nat) < 10 \<Longrightarrow> k \<in> {0, 1, 2, 3, 4, 5, 6, 7, 8, 9}"
  by auto

lemma NumberToString_key:
  "NumberToString n \<in> fst ` set STYLE_PROMPTS \<longleftrightarrow> 1 \<le> n \<and> n \<le> 5"
proof
  assume "NumberToString n \<in> fst ` set STYLE_PROMPTS"
  then obtain c :: jschar where c: "NumberToString n = [c]" "c \<in> {49, 50, 51, 52, 53}"
    unfolding style_keys by auto
  from c(1) have n: "0 \<le> n" "n < 10" "c = of_nat (48 + nat n)"
    by (simp_all add: NumberToString_single)
  from n(1,2) have "nat n \<in> {0, 1, 2, 3, 4, 5, 6, 7, 8, 9}" by (intro small_nat_cases) simp
  with c(2) n(3) have "nat n \<in> {1, 2, 3, 4, 5}" by auto
  with n(1) show "1 \<le> n \<and> n \<le> 5" by auto
next
  assume "1 \<le> n \<and> n \<le> 5"
  then have "n \<in> {1, 2, 3, 4, 5}" by auto
  then show "NumberToString n \<in> fst ` set STYLE_PROMPTS"
    unfolding style_keys by (auto simp: NumberToString_def digits.simps)
qed

lemma NumberToString_not_inherited: "NumberToString n \<notin> set Object_prototype_names"
proof -
  obtain c rest where c: "NumberToString n = c # rest" "c = 45 \<or> (\<exists>d<10. c = of_nat (48 + d))"
  proof (cases "n < 0")
    case True
    then show ?thesis using that by (simp add: NumberToString_def js_def)
  next
    case False
    obtain d rest where "d < 10" "digits (nat n) = of_nat (48 + d) # rest"
      using digits_shape by blast
    with False show ?thesis using that by (auto simp: NumberToString_def)
  qed
  from c(2) have "c \<in> {45, 48, 49, 50, 51, 52, 53, 54, 55, 56, 57}"
  proof
    assume "c = 45" then show ?thesis by simp
  next
    assume "\<exists>d<10. c = of_nat (48 + d)"
    then obtain d where d: "d < 10" "c = of_nat (48 + d)" by blast
    from d(1) have "d \<in> {0, 1, 2, 3, 4, 5, 6, 7, 8, 9}" by (rule small_nat_cases)
    with d(2) show ?thesis by auto
  qed
  with c(1) show ?thesis
    by (auto simp: Object_prototype_names_def js_def)
qed

lemma style_texts_nonempty: "map_of STYLE_PROMPTS key = Some t \<Longrightarrow> t \<noteq> []"
  by (auto simp: STYLE_PROMPTS_def js_def split: if_splits)

lemma getProperty_truthy:
  assumes "key \<notin> set Object_prototype_names"
  shows "truthyProperty (getProperty STYLE_PROMPTS key) \<longleftrightarrow> key \<in> fst ` set STYLE_PROMPTS"
proof (cases "map_of STYLE_PROMPTS key")
  case None
  then have "key \<notin> fst ` set STYLE_PROMPTS" by (simp add: map_of_eq_None_iff)
  with None assms show ?thesis by (simp add: getProperty_def)
next
  case (Some t)
  then have "(key, t) \<in> set STYLE_PROMPTS" by (rule map_of_SomeD)
  then have "key \<in> fst ` set STYLE_PROMPTS" by force
  with Some style_texts_nonempty [OF Some] show ?thesis by (simp add: getProperty_def)
qed

lemma falsy_key:
  assumes "\<not> truthy style" "ToString style = Inr key"
  shows "key \<notin> fst ` set STYLE_PROMPTS"
  using assms unfolding style_keys
  by (cases style) (auto simp: js_def NumberToString_def digits.simps split: if_splits)

lemma styleUnknown_key:
  assumes "ToString style = Inr key" "key \<notin> set Object_prototype_names"
  shows "styleUnknown style = Inr (key \<notin> fst ` set STYLE_PROMPTS)"
proof (cases "truthy style")
  case True
  with assms show ?thesis
    by (simp add: styleUnknown_def STYLE_PROMPTS_at_def getProperty_truthy)
next
  case False
  with falsy_key [OF False assms(1)] show ?thesis
    by (simp add: styleUnknown_def)
qed

lemma trim_Nil [simp]: "trim [] = []"
  by (simp add: trim_def)

lemma trim_leading: "isWhiteSpace w \<Longrightarrow> trim (w # s) = trim s"
  by (simp add: trim_def)

lemma trim_replicate: "\<not> isWhiteSpace c \<Longrightarrow> trim (replicate n c) = replicate n c"
  by (cases n) (simp_all add: trim_def replicate_app_Cons_same [symmetric] del: replicate_Suc replicate.simps)

text \<open>
  C6, as amended: when \<open>validateInput\<close> returns a list, it flags the prompt exactly when
  the prompt is not a string, or is a string whose trimmed form is empty or whose raw
  (untrimmed) length exceeds 200; for a style whose string form is not the name of an
  inherited \<open>Object.prototype\<close> member it flags \<open>Invalid style selection\<close> exactly when
  that string form is not one of the keys \<open>1\<close> to \<open>5\<close>, so an integer style is flagged
  exactly when it lies outside 1 to 5; and it flags \<open>brandColors\<close> exactly when the value
  is truthy and either not an array or an array of more than 5 entries.
\<close>

theorem validateInput_flags:
  assumes "validateInput strGt prompt style brandColors = Inr errors"
  shows "(promptFlagged errors \<longleftrightarrow> (case prompt of JStr s \<Rightarrow> trim s = [] \<or> 200 < length s | _ \<Rightarrow> True))
    \<and> (\<forall>key. ToString style = Inr key \<and> key \<notin> set Object_prototype_names
          \<longrightarrow> (invalidStyle \<in> set errors \<longleftrightarrow> key \<notin> fst ` set STYLE_PROMPTS))
    \<and> (\<forall>n. style = JNum n \<longrightarrow> (invalidStyle \<in> set errors \<longleftrightarrow> \<not> (1 \<le> n \<and> n \<le> 5)))
    \<and> (colorsFlagged errors \<longleftrightarrow>
          truthy brandColors \<and> (case brandColors of JArr xs \<Rightarrow> 5 < length xs | _ \<Rightarrow> True))"
proof -
  obtain long unknown many where
    l: "lengthOver strGt prompt 200 = Inr long" and
    u: "styleUnknown style = Inr unknown" and
    m: "lengthOver strGt brandColors 5 = Inr many" and
    e: "errors = (if \<not> truthy prompt \<or> notStringOrBlank prompt then [promptRequired] else [])
            @ (if long then [promptTooLong] else [])
            @ (if unknown then [invalidStyle] else [])
            @ (if truthy brandColors \<and> \<not> isArray brandColors then [colorsNotArray] else [])
            @ (if many then [tooManyColors] else [])"
    using validateInput_Inr [OF assms] by blast
  have pr: "promptRequired \<in> set errors \<longleftrightarrow> \<not> truthy prompt \<or> notStringOrBlank prompt"
    by (simp add: e)
  have pl: "promptTooLong \<in> set errors \<longleftrightarrow> long"
    by (simp add: e)
  have st: "invalidStyle \<in> set errors \<longleftrightarrow> unknown"
    by (simp add: e)
  have ca: "colorsNotArray \<in> set errors \<longleftrightarrow> truthy brandColors \<and> \<not> isArray brandColors"
    by (simp add: e)
  have cm: "tooManyColors \<in> set errors \<longleftrightarrow> many"
    by (simp add: e)
  have 1: "promptFlagged errors \<longleftrightarrow> (case prompt of JStr s \<Rightarrow> trim s = [] \<or> 200 < length s | _ \<Rightarrow> True)"
  proof (cases prompt)
    case (JStr s)
    with l have "long \<longleftrightarrow> s \<noteq> [] \<and> 200 < length s"
      by (auto simp: lengthOver_def lengthExceeds_def split: if_splits)
    with JStr show ?thesis
      unfolding promptFlagged_def pr pl by auto
  qed (simp_all add: promptFlagged_def pr)
  have 2: "invalidStyle \<in> set errors \<longleftrightarrow> key \<notin> fst ` set STYLE_PROMPTS"
    if "ToString style = Inr key" "key \<notin> set Object_prototype_names" for key
    using styleUnknown_key [OF that] u by (simp add: st)
  have 3: "invalidStyle \<in> set errors \<longleftrightarrow> \<not> (1 \<le> n \<and> n \<le> 5)" if "style = JNum n" for n
    using 2 [of "NumberToString n"] that
    by (simp add: NumberToString_not_inherited NumberToString_key)
  have nm: "\<not> truthy brandColors \<Longrightarrow> \<not> many"
    using m by (auto simp: lengthOver_def)
  have 4: "colorsFlagged errors \<longleftrightarrow>
          truthy brandColors \<and> (case brandColors of JArr xs \<Rightarrow> 5 < length xs | _ \<Rightarrow> True)"
  proof (cases brandColors)
    case (JArr xs)
    with m have "many \<longleftrightarrow> 5 < length xs"
      by (auto simp: lengthOver_def lengthExceeds_def)
    with JArr show ?thesis
      unfolding colorsFlagged_def ca cm by simp
  qed (use nm in \<open>auto simp: colorsFlagged_def ca cm\<close>)
  from 1 2 3 4 show ?thesis by blast
qed

lemma whitespace_samples: "\<not> isWhiteSpace 97" "isWhiteSpace 32"
  by (simp_all add: isWhiteSpace_def)

theorem validateInput_flags_witness:
  "validateInput (\<lambda>s k. False) (JStr (js ''Toys'')) (JNum 7) (JArr []) = Inr [invalidStyle]
   \<and> \<not> promptFlagged [invalidStyle]
   \<and> invalidStyle \<in> set [invalidStyle]
   \<and> \<not> colorsFlagged [invalidStyle]"
proof -
  have u: "styleUnknown (JNum 7) = Inr True"
    using styleUnknown_key [of "JNum 7" "NumberToString 7"]
    by (simp add: NumberToString_not_inherited NumberToString_key)
  have v: "validateInput (\<lambda>s k. False) (JStr (js ''Toys'')) (JNum 7) (JArr []) = Inr [invalidStyle]"
    unfolding validateInput_def u
    by (simp add: lengthOver_def lengthExceeds_def trim_def isWhiteSpace_def js_def)
  have "trim (js ''Toys'') \<noteq> []"
    by (simp add: trim_def isWhiteSpace_def js_def)
  with validateInput_flags [OF v] v show ?thesis
    by (simp add: js_def)
qed

text \<open>
  C6 as stated fails: a prompt of 201 code units, a space followed by 200 letters, is
  non-empty and 200 long after trimming, yet it is flagged, because the length test
  reads the untrimmed prompt; and \<open>brandColors = false\<close> is present and not a sequence,
  yet it is not flagged, because both colour tests are guarded by truthiness.
\<close>

theorem validateInput_counterexample:
  "validateInput (\<lambda>s k. False) (JStr (32 # replicate 200 97)) (JNum 1) (JBool False)
     = Inr [promptTooLong]
   \<and> promptFlagged [promptTooLong]
   \<and> spec_prompt_ok (JStr (32 # replicate 200 97))
   \<and> \<not> colorsFlagged [promptTooLong]
   \<and> \<not> spec_colors_ok (JBool False)"
proof -
  have t: "trim (32 # replicate 200 97) = replicate 200 97"
    by (simp add: trim_leading trim_replicate whitespace_samples)
  have nb: "\<not> notStringOrBlank (JStr (32 # replicate 200 97))"
    by (simp add: t)
  have u: "styleUnknown (JNum 1) = Inr False"
    using styleUnknown_key [of "JNum 1" "NumberToString 1"]
    by (simp add: NumberToString_not_inherited NumberToString_key)
  have "validateInput (\<lambda>s k. False) (JStr (32 # replicate 200 97)) (JNum 1) (JBool False)
     = Inr [promptTooLong]"
    unfolding validateInput_def u
    by (simp add: lengthOver_def lengthExceeds_def nb del: notStringOrBlank.simps)
  then show ?thesis
    by (simp add: promptFlagged_def colorsFlagged_def t)
qed

text \<open>
  C7: \<open>validateInput\<close> does not return for every raw input. For the request body
  \<open>{"prompt": "Toys", "style": {"toString": 1}}\<close> the property read
  \<open>STYLE_PROMPTS[style]\<close> converts the object to a property key and throws a TypeError,
  so no list of violations is returned.
\<close>

theorem validateInput_throws:
  "validateInput strGt (JStr (js ''Toys'')) (JObj [(js ''toString'', JNum 1)]) JUndefined
     = Inl cannotConvert"
  by (simp add: validateInput_def lengthOver_def lengthExceeds_def styleUnknown_def
      STYLE_PROMPTS_at_def js_def)

theorem validateInput_throws_witness:
  "validateInput (\<lambda>s k. False) (JStr (js ''Toys'')) (JObj [(js ''toString'', JNum 1)]) JUndefined
     = Inl (TypeError (js ''Cannot convert object to primitive value''))"
  using validateInput_throws [of "\<lambda>s k. False"] by (simp add: cannotConvert_def)

section \<open>Properties of retryWithBackoff\<close>

lemma stateBefore_shift: "stateBefore fn (snd (snd (fn s))) k = stateBefore fn s (Suc k)"
  by (induction k) simp_all

lemma outcomeOf_shift: "outcomeOf fn (snd (snd (fn s))) k = outcomeOf fn s (Suc k)"
  unfolding outcomeOf_def stateBefore_shift ..

lemma durationOf_shift: "durationOf fn (snd (snd (fn s))) k = durationOf fn s (Suc k)"
  unfolding durationOf_def stateBefore_shift ..

lemma await_eq:
  "await fn a w =
     (outcomeOf fn (ext w) 0,
      w\<lparr>clock := clock w + durationOf fn (ext w) 0,
        trace := trace w @ [(clock w, Invoke a),
                            (clock w + durationOf fn (ext w) 0, Settle (\<not> isl (outcomeOf fn (ext w) 0)))],
        ext := snd (snd (fn (ext w)))\<rparr>)"
  by (simp add: await_def logEvent_def outcomeOf_def durationOf_def split: prod.split)

lemma sleep_eq:
  "sleep ms w = w\<lparr>clock := clock w + ms, trace := trace w @ [(clock w, Sleep ms)]\<rparr>"
  by (simp add: sleep_def logEvent_def)

lemma ext_sleep [simp]: "ext (sleep ms w) = ext w"
  by (simp add: sleep_eq)

lemma ext_await [simp]: "ext (snd (await fn a w)) = snd (snd (fn (ext w)))"
  by (simp add: await_eq)

lemma retryLoop_ok:
  assumes "attempt \<le> m" "outcomeOf fn (ext w) 0 = Inr v"
  shows "retryLoop fn m attempt w = (Inr (Some v), snd (await fn attempt w))"
  using assms by (subst retryLoop.simps) (simp add: await_eq)

lemma retryLoop_last:
  assumes "outcomeOf fn (ext w) 0 = Inl e"
  shows "retryLoop fn m m w = (Inl e, snd (await fn m w))"
  using assms by (subst retryLoop.simps) (simp add: await_eq)

lemma retryLoop_retry:
  assumes "attempt < m" "outcomeOf fn (ext w) 0 = Inl e"
  shows "retryLoop fn m attempt w =
           retryLoop fn m (Suc attempt) (sleep (RETRY_DELAY_MS * 2 ^ attempt) (snd (await fn attempt w)))"
  using assms by (subst retryLoop.simps) (simp add: await_eq)

text \<open>The runs of \<open>retryWithBackoff fn 2\<close>, by the outcomes of the successive calls.\<close>

lemma retry2_first:
  assumes "outcomeOf fn (ext w) 0 = Inr v"
  shows "retryWithBackoff fn 2 w =
     (Inr (Some v),
      w\<lparr>clock := clock w + durationOf fn (ext w) 0,
        trace := trace w @ [(clock w, Invoke 0), (clock w + durationOf fn (ext w) 0, Settle True)],
        ext := stateBefore fn (ext w) (Suc 0)\<rparr>)"
  using assms by (simp add: retryWithBackoff_def retryLoop_ok await_eq)

lemma retry2_second:
  assumes "outcomeOf fn (ext w) 0 = Inl e0" "outcomeOf fn (ext w) (Suc 0) = Inr v"
  shows "retryWithBackoff fn 2 w =
     (Inr (Some v),
      w\<lparr>clock := clock w + durationOf fn (ext w) 0 + 1000 + durationOf fn (ext w) (Suc 0),
        trace := trace w @
          [(clock w, Invoke 0),
           (clock w + durationOf fn (ext w) 0, Settle False),
           (clock w + durationOf fn (ext w) 0, Sleep 1000),
           (clock w + durationOf fn (ext w) 0 + 1000, Invoke (Suc 0)),
           (clock w + durationOf fn (ext w) 0 + 1000 + durationOf fn (ext w) (Suc 0), Settle True)],
        ext := stateBefore fn (ext w) (Suc (Suc 0))\<rparr>)"
proof -
  let ?w1 = "sleep (RETRY_DELAY_MS * 2 ^ 0) (snd (await fn 0 w))"
  have "retryWithBackoff fn 2 w = retryLoop fn 2 (Suc 0) ?w1"
    unfolding retryWithBackoff_def using assms(1) by (rule retryLoop_retry [rotated]) simp
  also have "\<dots> = (Inr (Some v), snd (await fn (Suc 0) ?w1))"
    using assms(2) by (intro retryLoop_ok) (simp_all add: outcomeOf_shift)
  finally show ?thesis
    using assms
    by (simp add: await_eq sleep_eq outcomeOf_shift durationOf_shift stateBefore_shift
        RETRY_DELAY_MS_def)
qed

lemma retry2_third:
  assumes "outcomeOf fn (ext w) 0 = Inl e0" "outcomeOf fn (ext w) (Suc 0) = Inl e1"
  shows "retryWithBackoff fn 2 w =
     (map_sum id Some (outcomeOf fn (ext w) (Suc (Suc 0))),
      w\<lparr>clock := clock w + durationOf fn (ext w) 0 + 1000 + durationOf fn (ext w) (Suc 0) + 2000
                 + durationOf fn (ext w) (Suc (Suc 0)),
        trace := trace w @
          [(clock w, Invoke 0),
           (clock w + durationOf fn (ext w) 0, Settle False),
           (clock w + durationOf fn (ext w) 0, Sleep 1000),
           (clock w + durationOf fn (ext w) 0 + 1000, Invoke (Suc 0)),
           (clock w + durationOf fn (ext w) 0 + 1000 + durationOf fn (ext w) (Suc 0), Settle False),
           (clock w + durationOf fn (ext w) 0 + 1000 + durationOf fn (ext w) (Suc 0), Sleep 2000),
           (clock w + durationOf fn (ext w) 0 + 1000 + durationOf fn (ext w) (Suc 0) + 2000,
            Invoke (Suc (Suc 0))),
           (clock w + durationOf fn (ext w) 0 + 1000 + durationOf fn (ext w) (Suc 0) + 2000
              + durationOf fn (ext w) (Suc (Suc 0)),
            Settle (\<not> isl (outcomeOf fn (ext w) (Suc (Suc 0)))))],
        ext := stateBefore fn (ext w) (Suc (Suc (Suc 0)))\<rparr>)"
proof -
  let ?w1 = "sleep (RETRY_DELAY_MS * 2 ^ 0) (snd (await fn 0 w))"
  let ?w2 = "sleep (RETRY_DELAY_MS * 2 ^ Suc 0) (snd (await fn (Suc 0) ?w1))"
  have two: "(2::nat) = Suc (Suc 0)" by simp
  have "retryWithBackoff fn 2 w = retryLoop fn 2 (Suc 0) ?w1"
    unfolding retryWithBackoff_def using assms(1) by (rule retryLoop_retry [rotated]) simp
  also have "\<dots> = retryLoop fn 2 (Suc (Suc 0)) ?w2"
    by (rule retryLoop_retry [where e = e1]) (use assms(2) in \<open>simp_all add: outcomeOf_shift\<close>)
  finally have r: "retryWithBackoff fn 2 w = retryLoop fn 2 (Suc (Suc 0)) ?w2" .
  show ?thesis
  proof (cases "outcomeOf fn (ext w) (Suc (Suc 0))")
    case (Inl e2)
    then have "outcomeOf fn (ext ?w2) 0 = Inl e2"
      by (simp add: outcomeOf_shift)
    then have "retryLoop fn (Suc (Suc 0)) (Suc (Suc 0)) ?w2 = (Inl e2, snd (await fn (Suc (Suc 0)) ?w2))"
      by (rule retryLoop_last)
    with r Inl assms show ?thesis
      by (simp add: two await_eq sleep_eq outcomeOf_shift durationOf_shift stateBefore_shift
          RETRY_DELAY_MS_def)
  next
    case (Inr v)
    then have "outcomeOf fn (ext ?w2) 0 = Inr v"
      by (simp add: outcomeOf_shift)
    then have "retryLoop fn (Suc (Suc 0)) (Suc (Suc 0)) ?w2 = (Inr (Some v), snd (await fn (Suc (Suc 0)) ?w2))"
      by (intro retryLoop_ok) simp_all
    with r Inr assms show ?thesis
      by (simp add: two await_eq sleep_eq outcomeOf_shift durationOf_shift stateBefore_shift
          RETRY_DELAY_MS_def)
  qed
qed

text \<open>
  C4: with \<open>maxRetries = 2\<close>, \<open>retryWithBackoff\<close> calls the operation \<open>n\<close> times for
  some \<open>n\<close> between 1 and 3, attempts 0 to \<open>n - 1\<close> in order; every call before the last
  failed, and what is returned or thrown is the outcome of the last call, so a returned
  value is that of the first successful call and an error is thrown only after the third
  call failed. After the failure of attempt \<open>k\<close> the next call is issued
  \<open>RETRY_DELAY_MS * 2^k\<close> milliseconds after that failure settled: the delays are 1000 and
  then 2000, in non-decreasing order. An operation that fails twice and then succeeds is
  called three times (retried twice) and its value is returned.
\<close>

theorem retryWithBackoff_max2:
  "case retryWithBackoff fn MAX_RETRIES w of
     (r, w1) \<Rightarrow>
       (\<exists>new n.
          trace w1 = trace w @ new \<and> invocations new = [0..<n] \<and> 1 \<le> n \<and> n \<le> 3
        \<and> (\<forall>j<n - 1. isl (outcomeOf fn (ext w) j))
        \<and> r = map_sum id Some (outcomeOf fn (ext w) (n - 1))
        \<and> (isl r \<longrightarrow> n = 3)
        \<and> delays new = map (\<lambda>k. RETRY_DELAY_MS * 2 ^ k) [0..<n - 1]
        \<and> delays new = take (n - 1) [1000, 2000]
        \<and> sorted (delays new)
        \<and> (\<forall>k<n - 1. invokeTimes new ! Suc k = settleTimes new ! k + RETRY_DELAY_MS * 2 ^ k)
        \<and> (isl (outcomeOf fn (ext w) 0) \<and> isl (outcomeOf fn (ext w) 1)
             \<and> \<not> isl (outcomeOf fn (ext w) 2)
            \<longrightarrow> n = 3 \<and> \<not> isl r \<and> delays new = [1000, 2000]))"
proof -
  let ?o = "outcomeOf fn (ext w)"
  let ?d = "durationOf fn (ext w)"
  have three: "(3::nat) = Suc (Suc (Suc 0))" and two: "(2::nat) = Suc (Suc 0)" by simp_all
  consider (first) v where "?o 0 = Inr v"
    | (second) e0 v where "?o 0 = Inl e0" "?o (Suc 0) = Inr v"
    | (third) e0 e1 where "?o 0 = Inl e0" "?o (Suc 0) = Inl e1"
    by (metis sum.exhaust)
  then show ?thesis
  proof cases
    case first
    show ?thesis
      unfolding MAX_RETRIES_def retry2_first [OF first]
      apply (simp only: prod.case)
      apply (rule exI [of _ "[(clock w, Invoke 0), (clock w + ?d 0, Settle True)]"])
      apply (rule exI [of _ "Suc 0"])
      apply (simp add: first)
      done
  next
    case second
    show ?thesis
      unfolding MAX_RETRIES_def retry2_second [OF second]
      apply (simp only: prod.case)
      apply (rule exI [of _ "[(clock w, Invoke 0), (clock w + ?d 0, Settle False),
           (clock w + ?d 0, Sleep 1000), (clock w + ?d 0 + 1000, Invoke (Suc 0)),
           (clock w + ?d 0 + 1000 + ?d (Suc 0), Settle True)]"])
      apply (rule exI [of _ "Suc (Suc 0)"])
      apply (simp add: second RETRY_DELAY_MS_def upt_rec)
      done
  next
    case third
    show ?thesis
      unfolding MAX_RETRIES_def retry2_third [OF third]
      apply (simp only: prod.case)
      apply (rule exI [of _ "[(clock w, Invoke 0), (clock w + ?d 0, Settle False),
           (clock w + ?d 0, Sleep 1000), (clock w + ?d 0 + 1000, Invoke (Suc 0)),
           (clock w + ?d 0 + 1000 + ?d (Suc 0), Settle False),
           (clock w + ?d 0 + 1000 + ?d (Suc 0), Sleep 2000),
           (clock w + ?d 0 + 1000 + ?d (Suc 0) + 2000, Invoke (Suc (Suc 0))),
           (clock w + ?d 0 + 1000 + ?d (Suc 0) + 2000 + ?d (Suc (Suc 0)),
            Settle (\<not> isl (?o (Suc (Suc 0)))))]"])
      apply (rule exI [of _ "Suc (Suc (Suc 0))"])
      apply (simp add: third two three RETRY_DELAY_MS_def upt_rec less_Suc_eq)
      apply (cases "?o (Suc (Suc 0))"; simp)
      done
  qed
qed

theorem retryWithBackoff_max2_witness:
  "retryWithBackoff flaky MAX_RETRIES \<lparr>clock = 0, trace = [], ext = 0\<rparr>
     = (Inr (Some 14),
        \<lparr>clock = 3030,
         trace = [(0, Invoke 0), (10, Settle False), (10, Sleep 1000),
                  (1010, Invoke 1), (1020, Settle False), (1020, Sleep 2000),
                  (3020, Invoke 2), (3030, Settle True)],
         ext = 3\<rparr>)"
proof -
  have o: "outcomeOf flaky 0 0 = Inl ''unavailable''"
    "outcomeOf flaky 0 (Suc 0) = Inl ''unavailable''"
    "outcomeOf flaky 0 (Suc (Suc 0)) = Inr 14"
    "durationOf flaky 0 0 = 10" "durationOf flaky 0 (Suc 0) = 10"
    "durationOf flaky 0 (Suc (Suc 0)) = 10"
    "stateBefore flaky 0 (Suc (Suc (Suc 0))) = 3"
    by (simp_all add: outcomeOf_def durationOf_def flaky_def)
  have "retryWithBackoff flaky MAX_RETRIES \<lparr>clock = 0, trace = [], ext = 0\<rparr>
     = (Inr (Some 14),
        \<lparr>clock = 3030,
         trace = [(0, Invoke 0), (10, Settle False), (10, Sleep 1000),
                  (1010, Invoke 1), (1020, Settle False), (1020, Sleep 2000),
                  (3020, Invoke 2), (3030, Settle True)],
         ext = 3\<rparr>)"
    unfolding MAX_RETRIES_def
    by (subst retry2_third [where ?e0.0 = "''unavailable''" and ?e1.0 = "''unavailable''"])
      (simp_all add: o flaky_def)
  with retryWithBackoff_max2 [where fn = flaky and w = "\<lparr>clock = 0, trace = [], ext = 0\<rparr>"]
  show ?thesis by simp
qed

section \<open>Properties of the generation loop\<close>

lemma stateBefore_replicate_run [simp]: "stateBefore (replicate_run B inp) s k = s + k"
  by (induction k) (simp_all add: replicate_run_def)

lemma outcomeOf_replicate_run [simp]: "outcomeOf (replicate_run B inp) s k = snd (B (s + k) inp)"
  by (simp add: outcomeOf_def replicate_run_def)

lemma durationOf_replicate_run [simp]: "durationOf (replicate_run B inp) s k = fst (B (s + k) inp)"
  by (simp add: durationOf_def replicate_run_def)

lemma replicate_run_next [simp]: "snd (snd (replicate_run B inp k)) = Suc k"
  by (simp add: replicate_run_def)

lemma generateIcon_cases:
  obtains n new w1 where
    "1 \<le> n" "n \<le> 3" "launches new = []" "delays new = take (n - 1) [1000, 2000]"
    "\<exists>b. last new = (clock w1, Settle b)" "new \<noteq> []"
    "invocations new = [0..<n]"
    "trace w1 = trace w @ (clock w, Launch i (taskInput L i)) # new"
    "clock w1 = clock w + (\<Sum>k<n. fst (B (ext w + k) (taskInput L i))) + sum_list (delays new)"
    "ext w1 = ext w + n"
    "\<forall>j<n - 1. isl (snd (B (ext w + j) (taskInput L i)))"
    "isl (snd (B (ext w + (n - 1)) (taskInput L i))) \<longrightarrow> n = 3"
    "generateIcon B L i (results, errors, w) =
       (case snd (B (ext w + (n - 1)) (taskInput L i)) of
          Inr out \<Rightarrow>
            (results @ [\<lparr>r_index = i, r_url = imageUrl (Some out),
                          r_prompt = in_prompt (taskInput L i), r_seed = l_baseSeed L + int i\<rparr>],
             errors, w1)
        | Inl err \<Rightarrow> (results, errors @ [\<lparr>e_index = i, e_error = message err\<rparr>], w1))"
proof -
  let ?inp = "taskInput L i"
  let ?fn = "replicate_run B ?inp"
  let ?w0 = "logEvent (Launch i ?inp) w"
  let ?o = "\<lambda>k. snd (B (ext w + k) ?inp)"
  let ?d = "\<lambda>k. fst (B (ext w + k) ?inp)"
  have w0: "ext ?w0 = ext w" "clock ?w0 = clock w"
    "trace ?w0 = trace w @ [(clock w, Launch i ?inp)]"
    by (simp_all add: logEvent_def)
  have g: "generateIcon B L i (results, errors, w) =
     (case retryWithBackoff ?fn 2 ?w0 of
             (Inr out, w1) \<Rightarrow>
               (results @ [\<lparr>r_index = i, r_url = imageUrl out,
                             r_prompt = in_prompt ?inp, r_seed = l_baseSeed L + int i\<rparr>],
                errors, w1)
           | (Inl error, w1) \<Rightarrow>
               (results, errors @ [\<lparr>e_index = i, e_error = message error\<rparr>], w1))"
    by (simp add: generateIcon_def MAX_RETRIES_def Let_def)
  consider (first) v where "?o 0 = Inr v"
    | (second) e0 v where "?o 0 = Inl e0" "?o (Suc 0) = Inr v"
    | (third) e0 e1 where "?o 0 = Inl e0" "?o (Suc 0) = Inl e1"
    by (metis sum.exhaust)
  then show ?thesis
  proof cases
    case first
    let ?new = "[(clock w, Invoke 0), (clock w + ?d 0, Settle True)]"
    let ?w1 = "?w0\<lparr>clock := clock w + ?d 0, trace := trace ?w0 @ ?new, ext := ext w + Suc 0\<rparr>"
    have r: "retryWithBackoff ?fn 2 ?w0 = (Inr (Some v), ?w1)"
      using retry2_first [of ?fn ?w0 v] first by (simp add: w0)
    show ?thesis
      using first by (intro that [of "Suc 0" ?new ?w1]) (auto simp: g r w0)
  next
    case second
    let ?new = "[(clock w, Invoke 0), (clock w + ?d 0, Settle False),
               (clock w + ?d 0, Sleep 1000), (clock w + ?d 0 + 1000, Invoke (Suc 0)),
               (clock w + ?d 0 + 1000 + ?d (Suc 0), Settle True)]"
    let ?w1 = "?w0\<lparr>clock := clock w + ?d 0 + 1000 + ?d (Suc 0), trace := trace ?w0 @ ?new,
                   ext := ext w + Suc (Suc 0)\<rparr>"
    have r: "retryWithBackoff ?fn 2 ?w0 = (Inr (Some v), ?w1)"
      using retry2_second [of ?fn ?w0 e0 v] second by (simp add: w0)
    show ?thesis
      using second by (intro that [of "Suc (Suc 0)" ?new ?w1]) (auto simp: g r w0 upt_rec)
  next
    case third
    let ?new = "[(clock w, Invoke 0), (clock w + ?d 0, Settle False),
               (clock w + ?d 0, Sleep 1000), (clock w + ?d 0 + 1000, Invoke (Suc 0)),
               (clock w + ?d 0 + 1000 + ?d (Suc 0), Settle False),
               (clock w + ?d 0 + 1000 + ?d (Suc 0), Sleep 2000),
               (clock w + ?d 0 + 1000 + ?d (Suc 0) + 2000, Invoke (Suc (Suc 0))),
               (clock w + ?d 0 + 1000 + ?d (Suc 0) + 2000 + ?d (Suc (Suc 0)),
                Settle (\<not> isl (?o (Suc (Suc 0)))))]"
    let ?w1 = "?w0\<lparr>clock := clock w + ?d 0 + 1000 + ?d (Suc 0) + 2000 + ?d (Suc (Suc 0)),
                   trace := trace ?w0 @ ?new, ext := ext w + Suc (Suc (Suc 0))\<rparr>"
    have r: "retryWithBackoff ?fn 2 ?w0 = (map_sum id Some (?o (Suc (Suc 0))), ?w1)"
      using retry2_third [of ?fn ?w0 e0 e1] third by (simp add: w0)
    show ?thesis
      using third
      by (intro that [of "Suc (Suc (Suc 0))" ?new ?w1])
        (auto simp: g r w0 upt_rec less_Suc_eq lessThan_Suc split: sum.split)
  qed
qed

lemma ICON_VARIATIONS_length [simp]: "length ICON_VARIATIONS = 4"
  by (simp add: ICON_VARIATIONS_def)

lemma generateLoop_step:
  "index < 4 \<Longrightarrow> generateLoop B L index st = generateLoop B L (Suc index) (generateIcon B L index st)"
  by (subst generateLoop.simps) simp

lemma generateLoop_done: "generateLoop B L (Suc (Suc (Suc (Suc 0)))) st = st"
  by (subst generateLoop.simps) simp

lemma generateLoop_unroll:
  "generateLoop B L 0 st =
     generateIcon B L 3 (generateIcon B L 2 (generateIcon B L 1 (generateIcon B L 0 st)))"
  by (simp add: generateLoop_step generateLoop_done numeral_2_eq_2 numeral_3_eq_3)

lemma generateLoop_invariant:
  assumes "P 0 st"
    and "\<And>i st. i < 4 \<Longrightarrow> P i st \<Longrightarrow> P (Suc i) (generateIcon B L i st)"
  shows "P 4 (generateLoop B L 0 st)"
proof -
  have 1: "P (Suc 0) (generateIcon B L 0 st)"
    by (rule assms(2) [OF _ assms(1)]) simp
  have 2: "P (Suc (Suc 0)) (generateIcon B L (Suc 0) (generateIcon B L 0 st))"
    by (rule assms(2) [OF _ 1]) simp
  have 3: "P (Suc (Suc (Suc 0)))
      (generateIcon B L (Suc (Suc 0)) (generateIcon B L (Suc 0) (generateIcon B L 0 st)))"
    by (rule assms(2) [OF _ 2]) simp
  have "P (Suc (Suc (Suc (Suc 0))))
      (generateIcon B L (Suc (Suc (Suc 0)))
        (generateIcon B L (Suc (Suc 0)) (generateIcon B L (Suc 0) (generateIcon B L 0 st))))"
    by (rule assms(2) [OF _ 3]) simp
  then show ?thesis
    by (simp add: generateLoop_unroll numeral_2_eq_2 numeral_3_eq_3 numeral_eq_Suc)
qed

lemma generateIcon_outcome:
  obtains (success) r w1 k out where
      "generateIcon B L i (results, errors, w) = (results @ [r], errors, w1)"
      "r_index r = i" "r_prompt r = in_prompt (taskInput L i)" "r_seed r = l_baseSeed L + int i"
      "r_url r = imageUrl (Some out)" "snd (B k (taskInput L i)) = Inr out"
      "ext w \<le> k" "k < ext w1"
    | (failure) e w1 k err where
      "generateIcon B L i (results, errors, w) = (results, errors @ [e], w1)"
      "e_index e = i" "e_error e = message err" "snd (B k (taskInput L i)) = Inl err"
      "ext w \<le> k" "k < ext w1" "ext w1 = ext w + 3"
      "\<forall>j<3. isl (snd (B (ext w + j) (taskInput L i)))"
proof -
  obtain n new w1 where n: "1 \<le> n" "n \<le> 3" and x: "ext w1 = ext w + n"
    and f: "\<forall>j<n - 1. isl (snd (B (ext w + j) (taskInput L i)))"
    and l: "isl (snd (B (ext w + (n - 1)) (taskInput L i))) \<longrightarrow> n = 3"
    and g: "generateIcon B L i (results, errors, w) =
       (case snd (B (ext w + (n - 1)) (taskInput L i)) of
          Inr out \<Rightarrow>
            (results @ [\<lparr>r_index = i, r_url = imageUrl (Some out),
                          r_prompt = in_prompt (taskInput L i), r_seed = l_baseSeed L + int i\<rparr>],
             errors, w1)
        | Inl err \<Rightarrow> (results, errors @ [\<lparr>e_index = i, e_error = message err\<rparr>], w1))"
    by (rule generateIcon_cases [of w i L B results errors]) blast
  show ?thesis
  proof (cases "snd (B (ext w + (n - 1)) (taskInput L i))")
    case (Inr out)
    with g n x show ?thesis
      by (intro success [of _ w1 out "ext w + (n - 1)"]) auto
  next
    case (Inl err)
    with l have n3: "n = 3" by simp
    have "\<forall>j<3. isl (snd (B (ext w + j) (taskInput L i)))"
    proof (intro allI impI)
      fix j :: nat
      assume "j < 3"
      then consider "j < n - 1" | "j = n - 1" using n3 by linarith
      then show "isl (snd (B (ext w + j) (taskInput L i)))"
        using f Inl by cases auto
    qed
    with Inl g n x n3 show ?thesis
      by (intro failure [of _ w1 err "ext w + (n - 1)"]) auto
  qed
qed

lemma runner_invariant:
  "case generateLoop B L 0 ([], [], w) of
     (results, errors, w1) \<Rightarrow>
        mset (map r_index results) + mset (map e_index errors) = mset [0..<4]
      \<and> sorted (map r_index results) \<and> sorted (map e_index errors)
      \<and> (\<forall>r \<in> set results. r_index r < 4) \<and> (\<forall>e \<in> set errors. e_index e < 4)
      \<and> (\<forall>r \<in> set results. r_prompt r = in_prompt (taskInput L (r_index r))
            \<and> r_seed r = l_baseSeed L + int (r_index r))
      \<and> (\<forall>e \<in> set errors. \<exists>k err. ext w \<le> k \<and> k < ext w1
            \<and> snd (B k (taskInput L (e_index e))) = Inl err \<and> e_error e = message err)
      \<and> ext w \<le> ext w1"
proof -
  let ?P = "\<lambda>i st. case st of
     (results, errors, w1) \<Rightarrow>
        mset (map r_index results) + mset (map e_index errors) = mset [0..<i]
      \<and> sorted (map r_index results) \<and> sorted (map e_index errors)
      \<and> (\<forall>r \<in> set results. r_index r < i) \<and> (\<forall>e \<in> set errors. e_index e < i)
      \<and> (\<forall>r \<in> set results. r_prompt r = in_prompt (taskInput L (r_index r))
            \<and> r_seed r = l_baseSeed L + int (r_index r))
      \<and> (\<forall>e \<in> set errors. \<exists>k err. ext w \<le> k \<and> k < ext w1
            \<and> snd (B k (taskInput L (e_index e))) = Inl err \<and> e_error e = message err)
      \<and> ext w \<le> ext w1"
  have "?P 4 (generateLoop B L 0 ([], [], w))"
  proof (rule generateLoop_invariant)
    show "?P 0 ([], [], w)" by simp
  next
    fix i :: nat and st :: "generated list \<times> failed list \<times> nat world"
    assume i: "i < 4" and P: "?P i st"
    obtain results errors w0 where st: "st = (results, errors, w0)"
      by (cases st) auto
    show "?P (Suc i) (generateIcon B L i st)"
    proof (rule generateIcon_outcome [of B L i results errors w0])
      fix r w1 k out
      assume a: "generateIcon B L i (results, errors, w0) = (results @ [r], errors, w1)"
        "r_index r = i" "r_prompt r = in_prompt (taskInput L i)" "r_seed r = l_baseSeed L + int i"
        "ext w0 \<le> k" "k < ext w1"
      with P show ?thesis
        unfolding st by (fastforce simp: sorted_append less_Suc_eq)
    next
      fix e w1 k err
      assume a: "generateIcon B L i (results, errors, w0) = (results, errors @ [e], w1)"
        "e_index e = i" "e_error e = message err" "snd (B k (taskInput L i)) = Inl err"
        "ext w0 \<le> k" "k < ext w1"
      have "\<exists>k err. ext w \<le> k \<and> k < ext w1
            \<and> snd (B k (taskInput L (e_index e))) = Inl err \<and> e_error e = message err"
        using a P unfolding st by (intro exI [of _ k] exI [of _ err]) auto
      moreover have "\<forall>e \<in> set errors. \<exists>k err. ext w \<le> k \<and> k < ext w1
            \<and> snd (B k (taskInput L (e_index e))) = Inl err \<and> e_error e = message err"
      proof
        fix e' assume "e' \<in> set errors"
        with P obtain k' err' where "ext w \<le> k'" "k' < ext w0"
          "snd (B k' (taskInput L (e_index e'))) = Inl err'" "e_error e' = message err'"
          unfolding st by auto
        with a show "\<exists>k err. ext w \<le> k \<and> k < ext w1
            \<and> snd (B k (taskInput L (e_index e'))) = Inl err \<and> e_error e' = message err"
          by (intro exI [of _ k'] exI [of _ err']) auto
      qed
      ultimately show ?thesis
        using a P unfolding st by (auto simp: sorted_append less_Suc_eq)
    qed
  qed
  then show ?thesis by simp
qed

lemmas run_simps = generateLoop_unroll generateIcon_def retryWithBackoff_def retryLoop.simps
  await_def sleep_def logEvent_def replicate_run_def MAX_RETRIES_def RETRY_DELAY_MS_def
  taskInput_def start_def Let_def

lemma generateIcon_world:
  obtains rs es new w1 where
    "generateIcon B L i (results, errors, w) = (rs, es, w1)"
    "trace w1 = trace w @ (clock w, Launch i (taskInput L i)) # new"
    "launches new = []" "new \<noteq> []" "\<exists>b. last new = (clock w1, Settle b)"
    "clock w + sum_list (delays new) \<le> clock w1"
proof -
  obtain n new w1 where f: "launches new = []" "new \<noteq> []" "\<exists>b. last new = (clock w1, Settle b)"
    "trace w1 = trace w @ (clock w, Launch i (taskInput L i)) # new"
    "clock w1 = clock w + (\<Sum>k<n. fst (B (ext w + k) (taskInput L i))) + sum_list (delays new)"
    and g: "generateIcon B L i (results, errors, w) =
       (case snd (B (ext w + (n - 1)) (taskInput L i)) of
          Inr out \<Rightarrow>
            (results @ [\<lparr>r_index = i, r_url = imageUrl (Some out),
                          r_prompt = in_prompt (taskInput L i), r_seed = l_baseSeed L + int i\<rparr>],
             errors, w1)
        | Inl err \<Rightarrow> (results, errors @ [\<lparr>e_index = i, e_error = message err\<rparr>], w1))"
    by (rule generateIcon_cases [of w i L B results errors]) blast
  obtain rs es where "generateIcon B L i (results, errors, w) = (rs, es, w1)"
    unfolding g by (cases "snd (B (ext w + (n - 1)) (taskInput L i))") simp_all
  with f show ?thesis
    by (intro that [of rs es w1 new]) simp_all
qed

lemma generateLoop_trace:
  obtains rs es w4 t1 t2 t3 ev0 ev1 ev2 ev3 where
    "generateLoop B L 0 (results, errors, w) = (rs, es, w4)"
    "trace w4 = trace w @ (clock w, Launch 0 (taskInput L 0)) # ev0
                  @ (t1, Launch 1 (taskInput L 1)) # ev1
                  @ (t2, Launch 2 (taskInput L 2)) # ev2
                  @ (t3, Launch 3 (taskInput L 3)) # ev3"
    "launches ev0 = []" "launches ev1 = []" "launches ev2 = []" "launches ev3 = []"
    "ev0 \<noteq> []" "ev1 \<noteq> []" "ev2 \<noteq> []" "ev3 \<noteq> []"
    "\<exists>b. last ev0 = (t1, Settle b)" "\<exists>b. last ev1 = (t2, Settle b)"
    "\<exists>b. last ev2 = (t3, Settle b)" "\<exists>b. last ev3 = (clock w4, Settle b)"
    "clock w + sum_list (delays ev0) \<le> t1" "t1 + sum_list (delays ev1) \<le> t2"
    "t2 + sum_list (delays ev2) \<le> t3" "t3 + sum_list (delays ev3) \<le> clock w4"
proof -
  obtain rs1 es1 ev0 w1 where 1:
    "generateIcon B L 0 (results, errors, w) = (rs1, es1, w1)"
    "trace w1 = trace w @ (clock w, Launch 0 (taskInput L 0)) # ev0"
    "launches ev0 = []" "ev0 \<noteq> []" "\<exists>b. last ev0 = (clock w1, Settle b)"
    "clock w + sum_list (delays ev0) \<le> clock w1"
    by (rule generateIcon_world)
  obtain rs2 es2 ev1 w2 where 2:
    "generateIcon B L 1 (rs1, es1, w1) = (rs2, es2, w2)"
    "trace w2 = trace w1 @ (clock w1, Launch 1 (taskInput L 1)) # ev1"
    "launches ev1 = []" "ev1 \<noteq> []" "\<exists>b. last ev1 = (clock w2, Settle b)"
    "clock w1 + sum_list (delays ev1) \<le> clock w2"
    by (rule generateIcon_world)
  obtain rs3 es3 ev2 w3 where 3:
    "generateIcon B L 2 (rs2, es2, w2) = (rs3, es3, w3)"
    "trace w3 = trace w2 @ (clock w2, Launch 2 (taskInput L 2)) # ev2"
    "launches ev2 = []" "ev2 \<noteq> []" "\<exists>b. last ev2 = (clock w3, Settle b)"
    "clock w2 + sum_list (delays ev2) \<le> clock w3"
    by (rule generateIcon_world)
  obtain rs4 es4 ev3 w4 where 4:
    "generateIcon B L 3 (rs3, es3, w3) = (rs4, es4, w4)"
    "trace w4 = trace w3 @ (clock w3, Launch 3 (taskInput L 3)) # ev3"
    "launches ev3 = []" "ev3 \<noteq> []" "\<exists>b. last ev3 = (clock w4, Settle b)"
    "clock w3 + sum_list (delays ev3) \<le> clock w4"
    by (rule generateIcon_world)
  have "generateLoop B L 0 (results, errors, w) = (rs4, es4, w4)"
    using 1(1) 2(1) 3(1) 4(1) by (simp add: generateLoop_unroll)
  moreover have "trace w4 = trace w @ (clock w, Launch 0 (taskInput L 0)) # ev0
                  @ (clock w1, Launch 1 (taskInput L 1)) # ev1
                  @ (clock w2, Launch 2 (taskInput L 2)) # ev2
                  @ (clock w3, Launch 3 (taskInput L 3)) # ev3"
    by (simp add: 1 2 3 4)
  ultimately show ?thesis
    using 1 2 3 4
    by (intro that [where rs = rs4 and es = es4 and ?w4.0 = w4 and ?ev0.0 = ev0 and ?ev1.0 = ev1
          and ?ev2.0 = ev2 and ?ev3.0 = ev3 and ?t1.0 = "clock w1" and ?t2.0 = "clock w2"
          and ?t3.0 = "clock w3"])
qed

lemma launches_append [simp]: "launches (xs @ ys) = launches xs @ launches ys"
  by (induction xs rule: launches.induct) simp_all

lemma recorded_cong:
  assumes "recorded B L c results errors t" "c' t = c t" "c' (Suc t) = c (Suc t)"
    "set results \<subseteq> set results'" "set errors \<subseteq> set errors'"
    "e_index ` set errors' - {i} = e_index ` set errors - {i}" "t \<noteq> i"
  shows "recorded B L c' results' errors' t"
proof -
  have "t \<in> e_index ` set errors' \<longleftrightarrow> t \<in> e_index ` set errors"
    using assms(6,7) by blast
  with assms(1-5) show ?thesis
    unfolding recorded_def by (auto split: sum.splits)
qed

lemma runner_calls:
  "case generateLoop B L 0 ([], [], w) of
     (results, errors, w1) \<Rightarrow>
       \<exists>c. c 0 = ext w \<and> c 4 = ext w1 \<and> (\<forall>i<4. recorded B L c results errors i)"
proof -
  let ?P = "\<lambda>i st. case st of
     (results, errors, w1) \<Rightarrow>
        (\<forall>e \<in> set errors. e_index e < i)
      \<and> (\<exists>c. c 0 = ext w \<and> c i = ext w1 \<and> (\<forall>t<i. recorded B L c results errors t))"
  have "?P 4 (generateLoop B L 0 ([], [], w))"
  proof (rule generateLoop_invariant)
    have "\<exists>c. c 0 = ext w \<and> c 0 = ext w \<and> (\<forall>t<0. recorded B L c [] [] t)"
      by (intro exI [of _ "\<lambda>k. ext w"]) simp
    then show "?P 0 ([], [], w)" by simp
  next
    fix i :: nat and st :: "generated list \<times> failed list \<times> nat world"
    assume i: "i < 4" and P: "?P i st"
    obtain results errors w0 where st: "st = (results, errors, w0)"
      by (cases st) auto
    from P obtain c where c: "c 0 = ext w" "c i = ext w0" "\<forall>t<i. recorded B L c results errors t"
      and eb: "\<forall>e \<in> set errors. e_index e < i"
      unfolding st by auto
    obtain n new w1 where n: "1 \<le> n" "n \<le> 3" and x: "ext w1 = ext w0 + n"
      and f: "\<forall>j<n - 1. isl (snd (B (ext w0 + j) (taskInput L i)))"
      and l: "isl (snd (B (ext w0 + (n - 1)) (taskInput L i))) \<longrightarrow> n = 3"
      and g: "generateIcon B L i (results, errors, w0) =
         (case snd (B (ext w0 + (n - 1)) (taskInput L i)) of
            Inr out \<Rightarrow>
              (results @ [\<lparr>r_index = i, r_url = imageUrl (Some out),
                            r_prompt = in_prompt (taskInput L i), r_seed = l_baseSeed L + int i\<rparr>],
               errors, w1)
          | Inl err \<Rightarrow> (results, errors @ [\<lparr>e_index = i, e_error = message err\<rparr>], w1))"
      by (rule generateIcon_cases [of w0 i L B results errors]) blast
    define c' where "c' = c(Suc i := ext w0 + n)"
    have c': "c' 0 = ext w" "c' i = ext w0" "c' (Suc i) = ext w0 + n"
      "\<And>t. t < i \<Longrightarrow> c' t = c t \<and> c' (Suc t) = c (Suc t)"
      using c(1,2) by (simp_all add: c'_def)
    have ni: "i \<notin> e_index ` set errors"
      using eb by auto
    have fk: "\<forall>k. ext w0 \<le> k \<and> Suc k < ext w0 + n \<longrightarrow> isl (snd (B k (taskInput L i)))"
    proof (intro allI impI)
      fix k assume k: "ext w0 \<le> k \<and> Suc k < ext w0 + n"
      then have "k - ext w0 < n - 1" by linarith
      with f have "isl (snd (B (ext w0 + (k - ext w0)) (taskInput L i)))" by blast
      with k show "isl (snd (B k (taskInput L i)))" by simp
    qed
    have la: "ext w0 + n - 1 = ext w0 + (n - 1)"
      using n by simp
    show "?P (Suc i) (generateIcon B L i st)"
    proof (cases "snd (B (ext w0 + (n - 1)) (taskInput L i))")
      case (Inr out)
      let ?r = "\<lparr>r_index = i, r_url = imageUrl (Some out),
                 r_prompt = in_prompt (taskInput L i), r_seed = l_baseSeed L + int i\<rparr>"
      have g': "generateIcon B L i st = (results @ [?r], errors, w1)"
        unfolding st g Inr by simp
      have old: "recorded B L c' (results @ [?r]) errors t" if "t < i" for t
      proof (rule recorded_cong [where c = c and results = results and errors = errors and i = i])
        show "recorded B L c results errors t" using c(3) that by simp
        show "c' t = c t" "c' (Suc t) = c (Suc t)" using c'(4) [OF that] by simp_all
        show "t \<noteq> i" using that by simp
      qed auto
      have "\<not> (\<forall>j<3. isl (snd (B (ext w0 + j) (taskInput L i))))"
      proof
        assume "\<forall>j<3. isl (snd (B (ext w0 + j) (taskInput L i)))"
        moreover have "n - 1 < 3" using n by simp
        ultimately have "isl (snd (B (ext w0 + (n - 1)) (taskInput L i)))" by blast
        with Inr show False by simp
      qed
      then have cur: "recorded B L c' (results @ [?r]) errors i"
        unfolding recorded_def c'(2,3) la using n fk Inr ni by simp
      have "\<forall>t<Suc i. recorded B L c' (results @ [?r]) errors t"
      proof (intro allI impI)
        fix t assume "t < Suc i"
        then consider "t < i" | "t = i" by linarith
        then show "recorded B L c' (results @ [?r]) errors t"
          using old cur by cases simp_all
      qed
      with c'(1,3) x
      have 1: "\<exists>c. c 0 = ext w \<and> c (Suc i) = ext w1
           \<and> (\<forall>t<Suc i. recorded B L c (results @ [?r]) errors t)"
        by (intro exI [of _ c']) simp
      have 2: "\<forall>e \<in> set errors. e_index e < Suc i"
        using eb by (simp add: less_Suc_eq)
      from 1 2 show ?thesis
        unfolding g' by simp
    next
      case (Inl err)
      let ?e = "\<lparr>e_index = i, e_error = message err\<rparr>"
      have g': "generateIcon B L i st = (results, errors @ [?e], w1)"
        unfolding st g Inl by simp
      from l Inl have n3: "n = 3" by simp
      have old: "recorded B L c' results (errors @ [?e]) t" if "t < i" for t
      proof (rule recorded_cong [where c = c and results = results and errors = errors and i = i])
        show "recorded B L c results errors t" using c(3) that by simp
        show "c' t = c t" "c' (Suc t) = c (Suc t)" using c'(4) [OF that] by simp_all
        show "t \<noteq> i" using that by simp
        show "e_index ` set (errors @ [?e]) - {i} = e_index ` set errors - {i}" by auto
      qed auto
      have all: "\<forall>j<3. isl (snd (B (ext w0 + j) (taskInput L i)))"
      proof (intro allI impI)
        fix j :: nat
        assume "j < 3"
        then consider "j < n - 1" | "j = n - 1" using n3 by linarith
        then show "isl (snd (B (ext w0 + j) (taskInput L i)))"
          using f Inl by cases auto
      qed
      have cur: "recorded B L c' results (errors @ [?e]) i"
        unfolding recorded_def c'(2,3) la using n fk Inl all n3 by simp
      have "\<forall>t<Suc i. recorded B L c' results (errors @ [?e]) t"
      proof (intro allI impI)
        fix t assume "t < Suc i"
        then consider "t < i" | "t = i" by linarith
        then show "recorded B L c' results (errors @ [?e]) t"
          using old cur by cases simp_all
      qed
      with c'(1,3) x
      have 1: "\<exists>c. c 0 = ext w \<and> c (Suc i) = ext w1
           \<and> (\<forall>t<Suc i. recorded B L c results (errors @ [?e]) t)"
        by (intro exI [of _ c']) simp
      have 2: "\<forall>e \<in> set (errors @ [?e]). e_index e < Suc i"
        using eb by (simp add: less_Suc_eq)
      from 1 2 show ?thesis
        unfolding g' by simp
    qed
  qed
  moreover obtain results errors w1 where
    g: "generateLoop B L 0 ([], [], w) = (results, errors, w1)"
    by (cases "generateLoop B L 0 ([], [], w)") auto
  ultimately show ?thesis
    unfolding g by simp
qed

text \<open>
  C5: for every behaviour of the backend, the loop ends with exactly one outcome per
  task: the indices in \<open>results\<close> and in \<open>errors\<close> together are 0, 1, 2, 3, each once
  (so the two lists have 4 entries in all), and both lists are in index order. The
  outcome of a task is the one the backend's answers dictate: every task makes between
  one and three calls, one after another and after the calls of the tasks before it; a
  task whose call is fulfilled at the first, second or third attempt is an entry of
  \<open>results\<close>, with its index, the URL of that output and its prompt and seed; a task
  whose three calls are all rejected is an entry of \<open>errors\<close>, with its index and the
  message of the last rejection, and no other task is in \<open>errors\<close>. The loop returns
  the two lists for every backend: a task's failure is an entry of \<open>errors\<close>, and the
  tasks after it still make their calls.
\<close>

theorem runner_outcomes:
  "case generateLoop B L 0 ([], [], w) of
     (results, errors, w1) \<Rightarrow>
        length results + length errors = 4
      \<and> mset (map r_index results @ map e_index errors) = mset [0, 1, 2, 3]
      \<and> distinct (map r_index results @ map e_index errors)
      \<and> sorted (map r_index results) \<and> sorted (map e_index errors)
      \<and> (\<exists>c. c 0 = ext w \<and> c 4 = ext w1 \<and> (\<forall>i<4. recorded B L c results errors i))
      \<and> (\<forall>e \<in> set errors. \<exists>k err. ext w \<le> k \<and> k < ext w1
            \<and> snd (B k (taskInput L (e_index e))) = Inl err \<and> e_error e = message err)
      \<and> (\<forall>r \<in> set results. r_prompt r = in_prompt (taskInput L (r_index r))
            \<and> r_seed r = l_baseSeed L + int (r_index r))"
proof -
  obtain results errors w1 where g: "generateLoop B L 0 ([], [], w) = (results, errors, w1)"
    by (cases "generateLoop B L 0 ([], [], w)") auto
  have inv: "mset (map r_index results) + mset (map e_index errors) = mset [0..<4]"
    "sorted (map r_index results)" "sorted (map e_index errors)"
    "\<forall>r \<in> set results. r_prompt r = in_prompt (taskInput L (r_index r))
            \<and> r_seed r = l_baseSeed L + int (r_index r)"
    "\<forall>e \<in> set errors. \<exists>k err. ext w \<le> k \<and> k < ext w1
            \<and> snd (B k (taskInput L (e_index e))) = Inl err \<and> e_error e = message err"
    using runner_invariant [where B = B and L = L and w = w] unfolding g by simp_all
  have calls: "\<exists>c. c 0 = ext w \<and> c 4 = ext w1 \<and> (\<forall>i<4. recorded B L c results errors i)"
    using runner_calls [where B = B and L = L and w = w] unfolding g by simp
  have m: "mset (map r_index results @ map e_index errors) = mset [0..<4]"
    using inv(1) by simp
  have "size (mset (map r_index results @ map e_index errors)) = size (mset [0..<4])"
    by (simp only: m)
  then have len: "length results + length errors = 4"
    by simp
  have d: "distinct (map r_index results @ map e_index errors)"
    using m by (metis distinct_upt mset_eq_imp_distinct_iff)
  have u: "[0..<4] = [0, 1, 2, 3]"
    by (simp add: upt_rec)
  have m': "mset (map r_index results @ map e_index errors) = mset [0, 1, 2, 3]"
    using m by (simp only: u)
  show ?thesis
    unfolding g prod.case
    by (intro conjI) (rule len m' d inv(2) inv(3) calls inv(5) inv(4))+
qed

theorem runner_outcomes_witness:
  "map r_index (fst (generateLoop failsLast sampleLocals 0 ([], [], start))) = [0, 1, 2]
   \<and> fst (snd (generateLoop failsLast sampleLocals 0 ([], [], start)))
       = [\<lparr>e_index = 3, e_error = js ''rate limit''\<rparr>]
   \<and> map r_url (fst (generateLoop failsLast sampleLocals 0 ([], [], start)))
       = [js ''img'', js ''img'', js ''img'']
   \<and> snd (failsLast 5 (taskInput sampleLocals 3)) = Inl (Error (js ''rate limit''))
   \<and> ext (snd (snd (generateLoop failsLast sampleLocals 0 ([], [], start)))) = 6"
proof -
  have "map r_index (fst (generateLoop failsLast sampleLocals 0 ([], [], start))) = [0, 1, 2]
   \<and> fst (snd (generateLoop failsLast sampleLocals 0 ([], [], start)))
       = [\<lparr>e_index = 3, e_error = js ''rate limit''\<rparr>]
   \<and> map r_url (fst (generateLoop failsLast sampleLocals 0 ([], [], start)))
       = [js ''img'', js ''img'', js ''img'']
   \<and> ext (snd (snd (generateLoop failsLast sampleLocals 0 ([], [], start)))) = 6"
    by (simp add: run_simps failsLast_def sampleLocals_def)
  with runner_outcomes [where B = failsLast and L = sampleLocals and w = start] show ?thesis
    by (simp add: failsLast_def taskInput_def sampleLocals_def)
qed



section \<open>Properties of the planned tasks\<close>

lemma elementStrings_strings: "elementStrings (map JStr cs) = Inr cs"
  by (induction cs) simp_all

lemma Array_join_strings: "Array_join sep (map JStr cs) = Inr (joinWith sep cs)"
  by (simp add: Array_join_def elementStrings_strings)

lemma validated_prompt:
  assumes "validateInput strGt prompt style brandColors = Inr []"
  obtains p where "prompt = JStr p" "trim p \<noteq> []"
proof -
  from validateInput_Inr [OF assms] have "\<not> (\<not> truthy prompt \<or> notStringOrBlank prompt)"
    by (auto split: if_splits)
  then show ?thesis
    using that by (cases prompt) auto
qed

lemma validated_colors:
  assumes "validateInput strGt prompt style brandColors = Inr []"
  shows "\<not> truthy brandColors \<or> (\<exists>xs. brandColors = JArr xs)"
proof -
  from validateInput_Inr [OF assms] have "\<not> (truthy brandColors \<and> \<not> isArray brandColors)"
    by (auto split: if_splits)
  then show ?thesis
    by (cases brandColors) auto
qed

lemma validated_style:
  assumes "validateInput strGt prompt style brandColors = Inr []"
  shows "styleUnknown style = Inr False"
  using validateInput_Inr [OF assms] by (auto split: if_splits)

lemma colorInstruction_joined:
  assumes "\<not> truthy brandColors \<or> (\<exists>xs. brandColors = JArr xs)"
    and "colorInstructionOf strGt brandColors = Inr ci"
  shows "ci = (case joinedColors brandColors of
           None \<Rightarrow> []
         | Some c \<Rightarrow> js '', using these exact colors: '' @ c @ js '', maintain color consistency'')"
    and "joinedColors brandColors \<noteq> None \<longleftrightarrow> (\<exists>xs. brandColors = JArr xs \<and> xs \<noteq> [])"
proof -
  show "joinedColors brandColors \<noteq> None \<longleftrightarrow> (\<exists>xs. brandColors = JArr xs \<and> xs \<noteq> [])"
    using assms
    by (cases brandColors)
      (auto simp: colorInstructionOf_def lengthOver_def lengthExceeds_def split: sum.splits if_splits)
  show "ci = (case joinedColors brandColors of
           None \<Rightarrow> []
         | Some c \<Rightarrow> js '', using these exact colors: '' @ c @ js '', maintain color consistency'')"
    using assms
    by (cases brandColors)
      (auto simp: colorInstructionOf_def lengthOver_def lengthExceeds_def split: sum.splits if_splits)
qed

lemma fullPrompt_joined:
  "fullPrompt p v d (case colors of
           None \<Rightarrow> []
         | Some c \<Rightarrow> js '', using these exact colors: '' @ c @ js '', maintain color consistency'')
    = joinedPrompt p v d colors"
  by (cases colors) (simp_all add: fullPrompt_def joinedPrompt_def js_def)

lemma prepare_Inr:
  assumes "prepare strGt (JStr p) style brandColors = Inr L"
  obtains q ci where
    "STYLE_PROMPTS_at style = Inr q" "generateSeed (trim p) style = Inr (l_baseSeed L)"
    "colorInstructionOf strGt brandColors = Inr ci"
    "l_prompt L = p" "l_styleDescription L = propertyText q" "l_colorInstruction L = ci"
proof -
  obtain q where q: "STYLE_PROMPTS_at style = Inr q"
    using assms by (cases "STYLE_PROMPTS_at style") (simp_all add: prepare_def)
  obtain b where b: "generateSeed (trim p) style = Inr b"
    using assms by (cases "generateSeed (trim p) style") (simp_all add: prepare_def q)
  obtain ci where c: "colorInstructionOf strGt brandColors = Inr ci"
    using assms by (cases "colorInstructionOf strGt brandColors") (simp_all add: prepare_def q b)
  from assms have "L = \<lparr>l_prompt = p, l_styleDescription = propertyText q,
                    l_colorInstruction = ci, l_baseSeed = b\<rparr>"
    by (simp add: prepare_def q b c)
  with q b c show ?thesis
    by (intro that [of q ci]) simp_all
qed

lemma validated_number_style:
  assumes "styleUnknown (JNum n) = Inr False"
  obtains t where "map_of STYLE_PROMPTS (NumberToString n) = Some t"
    "STYLE_PROMPTS_at (JNum n) = Inr (OwnText t)"
proof -
  have "NumberToString n \<in> fst ` set STYLE_PROMPTS"
    using styleUnknown_key [of "JNum n" "NumberToString n"] assms
    by (simp add: NumberToString_not_inherited)
  then obtain t where "map_of STYLE_PROMPTS (NumberToString n) = Some t"
    by (metis map_of_eq_None_iff not_Some_eq)
  then show ?thesis
    by (intro that [of t]) (simp_all add: STYLE_PROMPTS_at_def getProperty_def)
qed

lemma strings_map: "(\<forall>x \<in> set xs. \<exists>c. x = JStr c) \<Longrightarrow> \<exists>cs. xs = map JStr cs"
  by (simp add: ex_map_conv)

lemma colorInstructionOf_strings:
  "colorInstructionOf strGt (JArr (map JStr cs)) =
     Inr (if cs = [] then []
          else js '', using these exact colors: '' @ joinWith (js '', '') cs
               @ js '', maintain color consistency'')"
  by (simp add: colorInstructionOf_def lengthOver_def lengthExceeds_def Array_join_strings)

lemma colorInstructionOf_falsy:
  "\<not> truthy brandColors \<Longrightarrow> colorInstructionOf strGt brandColors = Inr []"
  by (simp add: colorInstructionOf_def lengthOver_def)

lemma validated_prepare:
  assumes v: "validateInput strGt prompt style brandColors = Inr []"
    and s: "\<forall>xs. brandColors = JArr xs \<longrightarrow> (\<forall>x \<in> set xs. \<exists>c. x = JStr c)"
  shows "\<exists>L. prepare strGt prompt style brandColors = Inr L"
proof -
  obtain p where p: "prompt = JStr p"
    using validated_prompt [OF v] by blast
  have su: "styleUnknown style = Inr False"
    by (rule validated_style [OF v])
  obtain q where q: "STYLE_PROMPTS_at style = Inr q"
    using su by (cases "STYLE_PROMPTS_at style") (auto simp: styleUnknown_def split: if_splits)
  obtain key where key: "ToString style = Inr key"
    using q by (cases "ToString style") (auto simp: STYLE_PROMPTS_at_def)
  obtain b where b: "generateSeed (trim p) style = Inr b"
    by (simp add: generateSeed_def key)
  obtain ci where ci: "colorInstructionOf strGt brandColors = Inr ci"
  proof (cases "truthy brandColors")
    case False
    then show ?thesis using that by (simp add: colorInstructionOf_falsy)
  next
    case True
    with validated_colors [OF v] obtain xs where xs: "brandColors = JArr xs" by blast
    with s have "\<forall>x \<in> set xs. \<exists>c. x = JStr c" by simp
    then obtain cs where "xs = map JStr cs" using strings_map by blast
    with xs show ?thesis using that by (simp add: colorInstructionOf_strings)
  qed
  show ?thesis
    by (simp add: prepare_def p q b ci)
qed

lemma handler_world:
  assumes "validateInput strGt prompt style brandColors = Inr []"
    and "prepare strGt prompt style brandColors = Inr L"
  shows "snd (handler strGt B prompt style brandColors w)
           = snd (snd (generateLoop B L 0 ([], [], w)))"
proof -
  obtain results errors w1 where g: "generateLoop B L 0 ([], [], w) = (results, errors, w1)"
    by (cases "generateLoop B L 0 ([], [], w)") auto
  show ?thesis
    by (cases "aggregate results errors") (simp_all add: handler_def handlerTry_def assms g)
qed

lemma prepared_tasks:
  assumes "validateInput strGt prompt style brandColors = Inr []"
    and "prepare strGt prompt style brandColors = Inr L"
  obtains p where "prompt = JStr p"
    "generateSeed (trim p) style = Inr (l_baseSeed L)"
    "\<forall>i<4. taskInput L i =
           \<lparr>in_prompt = joinedPrompt p (ICON_VARIATIONS ! i) (l_styleDescription L)
                          (joinedColors brandColors),
            in_seed = Some (l_baseSeed L + int i)\<rparr>"
    "distinct (map (\<lambda>i. in_seed (taskInput L i)) [0..<4])"
    "joinedColors brandColors \<noteq> None \<longleftrightarrow> (\<exists>xs. brandColors = JArr xs \<and> xs \<noteq> [])"
    "\<forall>cs. brandColors = JArr (map JStr cs) \<and> cs \<noteq> []
           \<longrightarrow> joinedColors brandColors = Some (joinWith (js '', '') cs)"
    "\<forall>n. style = JNum n
           \<longrightarrow> 1 \<le> n \<and> n \<le> 5
             \<and> map_of STYLE_PROMPTS (NumberToString n) = Some (l_styleDescription L)"
    "case generateLoop B L 0 ([], [], w) of
          (results, errors, w1) \<Rightarrow>
            map (\<lambda>(t, i, inp). (i, inp)) (launches (drop (length (trace w)) (trace w1)))
              = map (\<lambda>i. (i, taskInput L i)) [0..<4]"
proof -
  obtain p where p: "prompt = JStr p"
    using validated_prompt [OF assms(1)] by blast
  obtain q ci where L: "STYLE_PROMPTS_at style = Inr q"
    "generateSeed (trim p) style = Inr (l_baseSeed L)"
    "colorInstructionOf strGt brandColors = Inr ci"
    "l_prompt L = p" "l_styleDescription L = propertyText q" "l_colorInstruction L = ci"
    using prepare_Inr [OF assms(2) [unfolded p]] by blast
  note c = colorInstruction_joined [OF validated_colors [OF assms(1)] L(3)]
  have tasks: "\<forall>i<4. taskInput L i =
           \<lparr>in_prompt = joinedPrompt p (ICON_VARIATIONS ! i) (l_styleDescription L)
                          (joinedColors brandColors),
            in_seed = Some (l_baseSeed L + int i)\<rparr>"
    by (simp add: taskInput_def L(4,6) c(1) fullPrompt_joined)
  have seeds: "distinct (map (\<lambda>i. in_seed (taskInput L i)) [0..<4])"
    by (simp add: taskInput_def upt_rec)
  have strings: "\<forall>cs. brandColors = JArr (map JStr cs) \<and> cs \<noteq> []
           \<longrightarrow> joinedColors brandColors = Some (joinWith (js '', '') cs)"
    by (simp add: Array_join_strings)
  have "1 \<le> n \<and> n \<le> 5 \<and> map_of STYLE_PROMPTS (NumberToString n) = Some (l_styleDescription L)"
    if "style = JNum n" for n
  proof -
    have u: "styleUnknown (JNum n) = Inr False"
      using validated_style [OF assms(1)] that by simp
    obtain t where t: "map_of STYLE_PROMPTS (NumberToString n) = Some t"
      "STYLE_PROMPTS_at (JNum n) = Inr (OwnText t)"
      using validated_number_style [OF u] by blast
    have "NumberToString n \<in> fst ` set STYLE_PROMPTS"
      using t(1) by (metis map_of_eq_None_iff option.distinct(1))
    then have n: "1 \<le> n \<and> n \<le> 5" by (simp only: NumberToString_key)
    have "Inr q = (Inr (OwnText t) :: jserror + property)"
      using L(1) t(2) that by simp
    then have "q = OwnText t" by (simp only: sum.inject)
    then have "l_styleDescription L = t" by (simp add: L(5))
    with n t(1) show ?thesis by simp
  qed
  then have style: "\<forall>n. style = JNum n
           \<longrightarrow> 1 \<le> n \<and> n \<le> 5
             \<and> map_of STYLE_PROMPTS (NumberToString n) = Some (l_styleDescription L)"
    by (intro allI impI)
  have order: "case generateLoop B L 0 ([], [], w) of
          (results, errors, w1) \<Rightarrow>
            map (\<lambda>(t, i, inp). (i, inp)) (launches (drop (length (trace w)) (trace w1)))
              = map (\<lambda>i. (i, taskInput L i)) [0..<4]"
  proof (rule generateLoop_trace [where B = B and L = L and results = "[]" and errors = "[]" and w = w])
    fix rs es w4 t1 t2 t3 ev0 ev1 ev2 ev3
    assume a: "generateLoop B L 0 ([], [], w) = (rs, es, w4)"
      "trace w4 = trace w @ (clock w, Launch 0 (taskInput L 0)) # ev0
                  @ (t1, Launch 1 (taskInput L 1)) # ev1
                  @ (t2, Launch 2 (taskInput L 2)) # ev2
                  @ (t3, Launch 3 (taskInput L 3)) # ev3"
      "launches ev0 = []" "launches ev1 = []" "launches ev2 = []" "launches ev3 = []"
    show ?thesis
      unfolding a(1) by (simp add: a(2-6) upt_rec numeral_2_eq_2 numeral_3_eq_3)
  qed
  show ?thesis
    by (rule that [OF p L(2) tasks seeds c(2) strings style order])
qed


lemma validated_key_style:
  assumes su: "styleUnknown style = Inr False"
    and key: "ToString style = Inr key" "key \<notin> set Object_prototype_names"
    and q: "STYLE_PROMPTS_at style = Inr q"
  shows "map_of STYLE_PROMPTS key = Some (propertyText q)"
proof -
  have "key \<in> fst ` set STYLE_PROMPTS"
    using styleUnknown_key [OF key] su by simp
  then obtain t where t: "map_of STYLE_PROMPTS key = Some t"
    by (metis map_of_eq_None_iff not_Some_eq)
  then have "STYLE_PROMPTS_at style = Inr (OwnText t)"
    by (simp add: STYLE_PROMPTS_at_def key(1) getProperty_def)
  with q have "q = OwnText t" by simp
  with t show ?thesis by simp
qed

lemma trace_start [simp]: "trace start = []"
  by (simp add: start_def)

text \<open>
  C3, as amended: for every validated request whose brand colours, when given, are
  strings, the handler computes its constants and launches exactly 4 tasks, in index
  order; task \<open>i\<close> has seed \<open>baseSeed + i\<close> (four distinct seeds), where \<open>baseSeed\<close> is the
  seed derived from the trimmed prompt and the style, and its prompt joins, in fixed
  order, the prompt as given (not trimmed) followed by \<open>" icon"\<close>, the \<open>i\<close>-th variation,
  the style descriptor, the clause \<open>using these exact colors: ..., maintain color
  consistency\<close> exactly when \<open>brandColors\<close> is a non-empty array, listing the colours
  separated by \<open>", "\<close>, and the fixed suffix. The descriptor is the entry of
  \<open>STYLE_PROMPTS\<close> under the style's string form, for a style that does not name an
  inherited member of \<open>Object.prototype\<close>; for an integer style it is the entry of that
  integer, which lies between 1 and 5.
\<close>

theorem planned_tasks:
  assumes "validateInput strGt prompt style brandColors = Inr []"
    and "\<forall>xs. brandColors = JArr xs \<longrightarrow> (\<forall>x \<in> set xs. \<exists>c. x = JStr c)"
  shows "\<exists>p L. prompt = JStr p
     \<and> prepare strGt prompt style brandColors = Inr L
     \<and> generateSeed (trim p) style = Inr (l_baseSeed L)
     \<and> (\<forall>i<4. taskInput L i =
           \<lparr>in_prompt = joinedPrompt p (ICON_VARIATIONS ! i) (l_styleDescription L)
                          (joinedColors brandColors),
            in_seed = Some (l_baseSeed L + int i)\<rparr>)
     \<and> distinct (map (\<lambda>i. in_seed (taskInput L i)) [0..<4])
     \<and> (joinedColors brandColors \<noteq> None \<longleftrightarrow> (\<exists>xs. brandColors = JArr xs \<and> xs \<noteq> []))
     \<and> (\<forall>cs. brandColors = JArr (map JStr cs) \<and> cs \<noteq> []
           \<longrightarrow> joinedColors brandColors = Some (joinWith (js '', '') cs))
     \<and> (\<forall>key. ToString style = Inr key \<and> key \<notin> set Object_prototype_names
           \<longrightarrow> map_of STYLE_PROMPTS key = Some (l_styleDescription L))
     \<and> (\<forall>n. style = JNum n
           \<longrightarrow> 1 \<le> n \<and> n \<le> 5
             \<and> map_of STYLE_PROMPTS (NumberToString n) = Some (l_styleDescription L))
     \<and> map (\<lambda>(t, i, inp). (i, inp))
          (launches (drop (length (trace w))
                      (trace (snd (handler strGt B prompt style brandColors w)))))
        = map (\<lambda>i. (i, taskInput L i)) [0..<4]"
proof -
  obtain L where L: "prepare strGt prompt style brandColors = Inr L"
    using validated_prepare [OF assms] by blast
  obtain p where p: "prompt = JStr p"
    and seed: "generateSeed (trim p) style = Inr (l_baseSeed L)"
    and tasks: "\<forall>i<4. taskInput L i =
           \<lparr>in_prompt = joinedPrompt p (ICON_VARIATIONS ! i) (l_styleDescription L)
                          (joinedColors brandColors),
            in_seed = Some (l_baseSeed L + int i)\<rparr>"
    and seeds: "distinct (map (\<lambda>i. in_seed (taskInput L i)) [0..<4])"
    and clause: "joinedColors brandColors \<noteq> None \<longleftrightarrow> (\<exists>xs. brandColors = JArr xs \<and> xs \<noteq> [])"
    and strings: "\<forall>cs. brandColors = JArr (map JStr cs) \<and> cs \<noteq> []
           \<longrightarrow> joinedColors brandColors = Some (joinWith (js '', '') cs)"
    and number: "\<forall>n. style = JNum n
           \<longrightarrow> 1 \<le> n \<and> n \<le> 5
             \<and> map_of STYLE_PROMPTS (NumberToString n) = Some (l_styleDescription L)"
    and order: "case generateLoop B L 0 ([], [], w) of
          (results, errors, w1) \<Rightarrow>
            map (\<lambda>(t, i, inp). (i, inp)) (launches (drop (length (trace w)) (trace w1)))
              = map (\<lambda>i. (i, taskInput L i)) [0..<4]"
    by (rule prepared_tasks [OF assms(1) L, where B = B and w = w])
  obtain q ci where q: "STYLE_PROMPTS_at style = Inr q" "l_styleDescription L = propertyText q"
    using prepare_Inr [OF L [unfolded p]] by blast
  have keyed: "\<forall>key. ToString style = Inr key \<and> key \<notin> set Object_prototype_names
           \<longrightarrow> map_of STYLE_PROMPTS key = Some (l_styleDescription L)"
  proof (intro allI impI)
    fix key
    assume k: "ToString style = Inr key \<and> key \<notin> set Object_prototype_names"
    show "map_of STYLE_PROMPTS key = Some (l_styleDescription L)"
      using validated_key_style [OF validated_style [OF assms(1)] conjunct1 [OF k] conjunct2 [OF k] q(1)]
      by (simp add: q(2))
  qed
  obtain results errors w1 where g: "generateLoop B L 0 ([], [], w) = (results, errors, w1)"
    by (cases "generateLoop B L 0 ([], [], w)") auto
  have "snd (handler strGt B prompt style brandColors w) = w1"
    by (simp add: handler_world [OF assms(1) L] g)
  with order have launched: "map (\<lambda>(t, i, inp). (i, inp))
          (launches (drop (length (trace w))
                      (trace (snd (handler strGt B prompt style brandColors w)))))
        = map (\<lambda>i. (i, taskInput L i)) [0..<4]"
    unfolding g by simp
  show ?thesis
    by (intro exI [of _ p] exI [of _ L] conjI)
      (rule p L seed tasks seeds clause strings keyed number launched)+
qed

theorem planned_tasks_witness:
  "validateInput (\<lambda>s k. False) (JStr (js ''Toys'')) (JNum 1) (JArr [JStr (js ''#FF5733'')]) = Inr []
   \<and> map_sum id l_baseSeed
        (prepare (\<lambda>s k. False) (JStr (js ''Toys'')) (JNum 1) (JArr [JStr (js ''#FF5733'')]))
      = Inr 1783891111
   \<and> joinedColors (JArr [JStr (js ''#FF5733'')]) = Some (js ''#FF5733'')
   \<and> map (\<lambda>(t, i, inp). i)
        (launches (trace (snd (handler (\<lambda>s k. False) failsOnce (JStr (js ''Toys'')) (JNum 1)
                                 (JArr [JStr (js ''#FF5733'')]) start))))
      = [0, 1, 2, 3]"
proof -
  have u: "styleUnknown (JNum 1) = Inr False"
    using styleUnknown_key [of "JNum 1" "NumberToString 1"]
    by (simp add: NumberToString_not_inherited NumberToString_key)
  have v: "validateInput (\<lambda>s k. False) (JStr (js ''Toys'')) (JNum 1) (JArr [JStr (js ''#FF5733'')]) = Inr []"
    unfolding validateInput_def u
    by (simp add: lengthOver_def lengthExceeds_def trim_def isWhiteSpace_def js_def)
  have c: "\<forall>xs. JArr [JStr (js ''#FF5733'')] = JArr xs \<longrightarrow> (\<forall>x \<in> set xs. \<exists>c. x = JStr c)"
    by auto
  have t: "trim (js ''Toys'') = js ''Toys''"
    by (simp add: trim_def isWhiteSpace_def js_def)
  have s: "generateSeed (js ''Toys'') (JNum 1) = Inr 1783891111"
    by (simp add: generateSeed_spec spec_rolling_hash_def NumberToString_def digits.simps js_def
        ToInt32_def charCode_def)
  have j: "joinedColors (JArr [JStr (js ''#FF5733'')]) = Some (js ''#FF5733'')"
    by (simp add: Array_join_def)
  from planned_tasks [OF v c, where B = failsOnce and w = start] obtain p' L where
    p': "JStr (js ''Toys'') = JStr p'"
    and L: "prepare (\<lambda>s k. False) (JStr (js ''Toys'')) (JNum 1) (JArr [JStr (js ''#FF5733'')]) = Inr L"
    and b: "generateSeed (trim p') (JNum 1) = Inr (l_baseSeed L)"
    and l: "map (\<lambda>(t, i, inp). (i, inp))
          (launches (drop (length (trace start))
             (trace (snd (handler (\<lambda>s k. False) failsOnce (JStr (js ''Toys'')) (JNum 1)
                                 (JArr [JStr (js ''#FF5733'')]) start)))))
        = map (\<lambda>i. (i, taskInput L i)) [0..<4]"
    by (elim exE conjE)
  from p' b have "generateSeed (trim (js ''Toys'')) (JNum 1) = Inr (l_baseSeed L)"
    by auto
  then have seed: "l_baseSeed L = 1783891111"
    by (simp add: t s)
  let ?ls = "launches (trace (snd (handler (\<lambda>s k. False) failsOnce (JStr (js ''Toys'')) (JNum 1)
                                 (JArr [JStr (js ''#FF5733'')]) start)))"
  have "map (\<lambda>(t, i, inp). i) ?ls = map fst (map (\<lambda>(t, i, inp). (i, inp)) ?ls)"
    by (simp add: case_prod_beta)
  also have "\<dots> = map fst (map (\<lambda>i. (i, taskInput L i)) [0..<4])"
    using l by simp
  also have "\<dots> = [0, 1, 2, 3]"
    by (simp add: upt_rec)
  finally have order: "map (\<lambda>(t, i, inp). i) ?ls = [0, 1, 2, 3]" .
  from v L seed j order show ?thesis
    by simp
qed

text \<open>
  The colours have to be strings for this: validation does not look at the entries of
  \<open>brandColors\<close>, and an entry that has no string form makes \<open>brandColors.join\<close> throw
  after validation, so that the handler answers 500 and launches no task.
\<close>

lemma unprintable_colour:
  "validateInput strGt (JStr (js ''Toys'')) (JNum 1) (JArr [JObj [(js ''toString'', JNum 1)]]) = Inr []
   \<and> handler strGt B (JStr (js ''Toys'')) (JNum 1) (JArr [JObj [(js ''toString'', JNum 1)]]) w
       = (errorResponse cannotConvert, w)"
proof -
  have u: "styleUnknown (JNum 1) = Inr False"
    using styleUnknown_key [of "JNum 1" "NumberToString 1"]
    by (simp add: NumberToString_not_inherited NumberToString_key)
  have v: "validateInput strGt (JStr (js ''Toys'')) (JNum 1) (JArr [JObj [(js ''toString'', JNum 1)]]) = Inr []"
    unfolding validateInput_def u
    by (simp add: lengthOver_def lengthExceeds_def trim_def isWhiteSpace_def js_def)
  obtain q where q: "STYLE_PROMPTS_at (JNum 1) = Inr (OwnText q)"
    using validated_number_style [OF u] by blast
  have t: "trim (js ''Toys'') = js ''Toys''"
    by (simp add: trim_def isWhiteSpace_def js_def)
  obtain b where s: "generateSeed (js ''Toys'') (JNum 1) = Inr b"
    by (simp add: generateSeed_def)
  have c: "colorInstructionOf strGt (JArr [JObj [(js ''toString'', JNum 1)]]) = Inl cannotConvert"
    by (simp add: colorInstructionOf_def lengthOver_def lengthExceeds_def Array_join_def)
  have "prepare strGt (JStr (js ''Toys'')) (JNum 1) (JArr [JObj [(js ''toString'', JNum 1)]])
      = Inl cannotConvert"
    by (simp add: prepare_def q t s c)
  with v show ?thesis
    by (simp add: handler_def handlerTry_def)
qed

text \<open>
  C3 as stated fails: the prompt \<open>" a"\<close> is valid, and the prompt of task 0 begins with
  \<open>" a "\<close>, the prompt as given, where the specification's begins with \<open>"a i"\<close>, the
  trimmed prompt.
\<close>

theorem planned_tasks_counterexample:
  "validateInput (\<lambda>s k. False) (JStr (js '' a'')) (JNum 1) JUndefined = Inr []
   \<and> map_sum id (\<lambda>L. take 3 (in_prompt (taskInput L 0)))
        (prepare (\<lambda>s k. False) (JStr (js '' a'')) (JNum 1) JUndefined)
      = Inr (js '' a '')
   \<and> map_sum id (\<lambda>L. take 3 (spec_fullPrompt (js '' a'') (ICON_VARIATIONS ! 0)
                                  (l_styleDescription L) (joinedColors JUndefined)))
        (prepare (\<lambda>s k. False) (JStr (js '' a'')) (JNum 1) JUndefined)
      = Inr (js ''a i'')"
proof -
  have u: "styleUnknown (JNum 1) = Inr False"
    using styleUnknown_key [of "JNum 1" "NumberToString 1"]
    by (simp add: NumberToString_not_inherited NumberToString_key)
  have v: "validateInput (\<lambda>s k. False) (JStr (js '' a'')) (JNum 1) JUndefined = Inr []"
    unfolding validateInput_def u
    by (simp add: lengthOver_def lengthExceeds_def trim_def isWhiteSpace_def js_def)
  have t: "trim (js '' a'') = js ''a''"
    by (simp add: trim_def isWhiteSpace_def js_def)
  obtain q where q: "STYLE_PROMPTS_at (JNum 1) = Inr (OwnText q)"
    using validated_number_style [OF u] by blast
  obtain b where s: "generateSeed (js ''a'') (JNum 1) = Inr b"
    by (simp add: generateSeed_def)
  have p: "prepare (\<lambda>s k. False) (JStr (js '' a'')) (JNum 1) JUndefined
      = Inr \<lparr>l_prompt = js '' a'', l_styleDescription = q, l_colorInstruction = [],
             l_baseSeed = b\<rparr>"
    by (simp add: prepare_def q t s colorInstructionOf_def lengthOver_def)
  have t': "trim [32, 97] = [97]"
    by (simp add: trim_def isWhiteSpace_def)
  have "take 3 (in_prompt (taskInput \<lparr>l_prompt = js '' a'', l_styleDescription = q,
           l_colorInstruction = [], l_baseSeed = b\<rparr> 0)) = js '' a ''"
    by (simp add: taskInput_def fullPrompt_def js_def)
  moreover have "take 3 (spec_fullPrompt (js '' a'') (ICON_VARIATIONS ! 0) q (joinedColors JUndefined))
      = js ''a i''"
    by (simp add: spec_fullPrompt_def joinedPrompt_def js_def t')
  ultimately show ?thesis
    unfolding p using v by simp
qed

section \<open>Properties of aggregation and error responses\<close>

lemma includes_str_iff: "includes_str s sub \<longleftrightarrow> (\<exists>pre post. s = pre @ sub @ post)"
proof (induction s)
  case Nil
  then show ?case by simp
next
  case (Cons c cs)
  have "take (length sub) (c # cs) = sub \<longleftrightarrow> (\<exists>post. c # cs = sub @ post)"
    by (metis append_eq_conv_conj append_take_drop_id)
  moreover have "(\<exists>pre post. c # cs = pre @ sub @ post)
      \<longleftrightarrow> (\<exists>post. c # cs = sub @ post) \<or> (\<exists>pre post. cs = pre @ sub @ post)"
  proof
    assume "\<exists>pre post. c # cs = pre @ sub @ post"
    then obtain pre post where e: "c # cs = pre @ sub @ post" by blast
    show "(\<exists>post. c # cs = sub @ post) \<or> (\<exists>pre post. cs = pre @ sub @ post)"
    proof (cases pre)
      case Nil
      with e show ?thesis by auto
    next
      case (Cons a pre')
      with e have "cs = pre' @ sub @ post" by simp
      then show ?thesis by blast
    qed
  next
    assume "(\<exists>post. c # cs = sub @ post) \<or> (\<exists>pre post. cs = pre @ sub @ post)"
    then show "\<exists>pre post. c # cs = pre @ sub @ post"
    proof
      assume "\<exists>post. c # cs = sub @ post"
      then obtain post where "c # cs = [] @ sub @ post" by auto
      then show ?thesis by blast
    next
      assume "\<exists>pre post. cs = pre @ sub @ post"
      then obtain pre post where "c # cs = (c # pre) @ sub @ post" by auto
      then show ?thesis by blast
    qed
  qed
  ultimately show ?case
    using Cons.IH by simp
qed

lemma insufficient_status:
  "n < 2 \<Longrightarrow> statusCode (errorResponse (insufficient n)) = 500
     \<and> body (errorResponse (insufficient n))
         = JObj [(js ''error'', JStr (js ''Failed to generate icons'')),
                 (js ''details'', JStr (message (insufficient n)))]"
proof -
  assume "n < 2"
  then consider "n = 0" | "n = 1" by linarith
  then show ?thesis
    by cases
      (simp_all add: errorResponse_def insufficient_def NumberToString_def digits.simps js_def
        errorBody_def jsonObject_def)
qed

lemma iconJson_eq:
  "iconJson x = JObj [(js ''url'', JStr (r_url x)), (js ''prompt'', JStr (r_prompt x)),
                      (js ''seed'', JNum (r_seed x))]"
  by (simp add: iconJson_def jsonObject_def)

lemma errorJson_eq:
  "errorJson e = JObj [(js ''index'', JNum (int (e_index e))), (js ''error'', JStr (e_error e))]"
  by (simp add: errorJson_def jsonObject_def)

text \<open>
  C1: for every pair of lists \<open>results\<close> and \<open>errors\<close> the loop can leave: with fewer
  than 2 results the aggregation throws the error whose message counts the successes
  against 4, and the handler answers it with status 500 and a body of only \<open>error\<close> and
  \<open>details\<close> (no icons); with at least 2 results it answers 200 with \<open>success\<close>, the
  icons of all results in ascending index order, each an object of \<open>url\<close>, \<open>prompt\<close> and
  \<open>seed\<close>, \<open>partial\<close> true exactly when there are fewer than 4 results, and the field
  \<open>errors\<close> present, holding the per-index failures, exactly when there is a failure.
\<close>

theorem aggregate_outcome:
  "(if length results < 2 then
        aggregate results errors = Inl (insufficient (length results))
      \<and> message (insufficient (length results))
          = js ''Failed to generate sufficient icons. Only ''
            @ NumberToString (int (length results)) @ js ''/4 succeeded.''
      \<and> statusCode (errorResponse (insufficient (length results))) = 500
      \<and> body (errorResponse (insufficient (length results)))
          = JObj [(js ''error'', JStr (js ''Failed to generate icons'')),
                  (js ''details'', JStr (message (insufficient (length results))))]
    else
      (\<exists>r. aggregate results errors = Inr r \<and> statusCode r = 200
         \<and> fieldNames (body r)
             = [js ''success'', js ''icons'', js ''partial'']
               @ (if errors = [] then [] else [js ''errors''])
         \<and> field (body r) (js ''success'') = JBool True
         \<and> field (body r) (js ''icons'') = JArr (map iconJson (sort_key r_index results))
         \<and> field (body r) (js ''partial'') = JBool (length results < 4)
         \<and> field (body r) (js ''errors'')
             = (if errors = [] then JUndefined else JArr (map errorJson errors))))
   \<and> sorted (map r_index (sort_key r_index results))
   \<and> mset (sort_key r_index results) = mset results
   \<and> iconJson x = JObj [(js ''url'', JStr (r_url x)), (js ''prompt'', JStr (r_prompt x)),
                         (js ''seed'', JNum (r_seed x))]
   \<and> errorJson e = JObj [(js ''index'', JNum (int (e_index e))), (js ''error'', JStr (e_error e))]"
proof (cases "length results < 2")
  case True
  with insufficient_status [of "length results"] show ?thesis
    by (simp add: aggregate_def iconJson_eq errorJson_eq) (simp add: insufficient_def)
next
  case False
  then show ?thesis
    by (simp add: aggregate_def iconJson_eq errorJson_eq)
      (simp add: jsonObject_def js_def)
qed




section \<open>Properties of the handlers without retry\<close>

lemma rejections_Nil_iff: "rejections ps = [] \<longleftrightarrow> (\<forall>(t, r) \<in> set ps. \<not> isl r)"
  by (induction ps rule: rejections.induct) auto

lemma rejections_set: "(t, e) \<in> set (rejections ps) \<longleftrightarrow> (t, Inl e) \<in> set ps"
  by (induction ps rule: rejections.induct) auto

lemma fulfilled_length: "rejections ps = [] \<Longrightarrow> length (fulfilled ps) = length ps"
  by (induction ps rule: rejections.induct) auto

lemma Promise_all_Inr:
  "Promise_all ps = Inr vs \<longleftrightarrow> rejections ps = [] \<and> vs = fulfilled ps"
  by (auto simp: Promise_all_def split: list.splits)

lemma Promise_all_Inl:
  assumes "Promise_all ps = Inl e"
  obtains t where "(t, Inl e) \<in> set ps"
proof -
  from assms obtain r rs where r: "rejections ps = r # rs" "e = snd (arg_min_list fst (r # rs))"
    by (auto simp: Promise_all_def split: list.splits)
  have "arg_min_list fst (r # rs) \<in> set (r # rs)"
    by (rule arg_min_list_in) simp
  then have "(fst (arg_min_list fst (r # rs)), e) \<in> set (rejections ps)"
    by (simp add: r)
  then show ?thesis
    using that by (simp add: rejections_set)
qed

lemma simpleIconJson_fields: "fieldNames (simpleIconJson r) = [js ''url'', js ''prompt'']"
  by (simp add: simpleIconJson_def jsonObject_def)

lemma simpleTry_Inr:
  assumes "simpleTry B prompt style brandColors = Inr r"
  shows "(statusCode r = 400 \<and> (\<exists>m. body r = JObj [(js ''error'', JStr m)]))
       \<or> (statusCode r = 200
           \<and> (\<exists>q ci results. STYLE_PROMPTS_at style = Inr q
                \<and> simpleColorInstruction brandColors = Inr ci
                \<and> Promise_all (map (simpleTask B prompt (propertyText q) ci) [0..<4]) = Inr results
                \<and> body r = JObj [(js ''success'', JBool True),
                     (js ''icons'', JArr (map simpleIconJson (sort_key s_index results)))]))"
proof (cases "\<not> truthy prompt \<or> \<not> truthy style")
  case True
  with assms show ?thesis
    by (auto simp: simpleTry_def jsonObject_def)
next
  case False
  then obtain q where q: "STYLE_PROMPTS_at style = Inr q"
    using assms by (cases "STYLE_PROMPTS_at style") (simp_all add: simpleTry_def)
  show ?thesis
  proof (cases "truthyProperty q")
    case no: False
    with False q assms show ?thesis
      by (auto simp: simpleTry_def jsonObject_def)
  next
    case yes: True
    obtain ci where ci: "simpleColorInstruction brandColors = Inr ci"
      using assms False q yes
      by (cases "simpleColorInstruction brandColors") (simp_all add: simpleTry_def)
    obtain results where
      res: "Promise_all (map (simpleTask B prompt (propertyText q) ci) [0..<4]) = Inr results"
      using assms False q yes ci
      by (cases "Promise_all (map (simpleTask B prompt (propertyText q) ci) [0..<4])")
        (simp_all add: simpleTry_def ICON_VARIATIONS_length)
    have "r = \<lparr>statusCode = 200,
              body = jsonObject [(js ''success'', JBool True),
                 (js ''icons'', JArr (map simpleIconJson (sort_key s_index results)))]\<rparr>"
      using assms False q yes ci res by (simp add: simpleTry_def ICON_VARIATIONS_length)
    then show ?thesis
      using q ci res by (simp add: jsonObject_def)
  qed
qed

lemma simpleTry_fails:
  assumes "truthy prompt" "truthy style" "STYLE_PROMPTS_at style = Inr q" "truthyProperty q"
    "simpleColorInstruction brandColors = Inr ci" "ToString prompt = Inr p"
    "i < 4" "isl (snd (B i (simpleInput p (propertyText q) ci i)))"
  obtains e j where "simpleTry B prompt style brandColors = Inl e" "j < 4"
    "snd (B j (simpleInput p (propertyText q) ci j)) = Inl e"
proof -
  let ?ps = "map (simpleTask B prompt (propertyText q) ci) [0..<4]"
  have task: "snd (simpleTask B prompt (propertyText q) ci j)
      = map_sum id (\<lambda>out. \<lparr>s_index = j, s_url = imageUrl (Some out),
           s_prompt = in_prompt (simpleInput p (propertyText q) ci j)\<rparr>)
          (snd (B j (simpleInput p (propertyText q) ci j)))" for j
    by (simp add: simpleTask_def assms(6) split: prod.split sum.split)
  have "isl (snd (simpleTask B prompt (propertyText q) ci i))"
    using assms(8) by (simp add: task isl_map_sum)
  moreover have "simpleTask B prompt (propertyText q) ci i \<in> set ?ps"
    using assms(7) by simp
  ultimately have "rejections ?ps \<noteq> []"
    unfolding rejections_Nil_iff by (force simp: split_beta)
  then obtain e where e: "Promise_all ?ps = Inl e"
    by (cases "Promise_all ?ps") (simp_all add: Promise_all_Inr)
  then obtain t where "(t, Inl e) \<in> set ?ps"
    by (rule Promise_all_Inl)
  then obtain j where j: "j < 4" "simpleTask B prompt (propertyText q) ci j = (t, Inl e)"
    by auto
  from j(2) have "snd (simpleTask B prompt (propertyText q) ci j) = Inl e"
    by simp
  then have "snd (B j (simpleInput p (propertyText q) ci j)) = Inl e"
    unfolding task by (cases "snd (B j (simpleInput p (propertyText q) ci j))") simp_all
  moreover have "simpleTry B prompt style brandColors = Inl e"
    using assms(1-5) e by (simp add: simpleTry_def ICON_VARIATIONS_length)
  ultimately show ?thesis
    using j(1) that by blast
qed

lemma simpleTry_cong:
  assumes "\<forall>k<4. \<forall>inp. B' k inp = B k inp"
  shows "simpleTry B' prompt style brandColors = simpleTry B prompt style brandColors"
proof -
  have "simpleTask B' prompt sd ci k = simpleTask B prompt sd ci k" if "k < 4" for sd ci k
  proof -
    have "B' k inp = B k inp" for inp
      using assms that by blast
    then show ?thesis
      by (cases "ToString prompt") (simp_all add: simpleTask_def)
  qed
  then have m: "map (simpleTask B' prompt sd ci) [0..<4] = map (simpleTask B prompt sd ci) [0..<4]"
    for sd ci
    by (intro map_cong) simp_all
  show ?thesis
    unfolding simpleTry_def ICON_VARIATIONS_length
    by (simp add: m split: sum.split)
qed

text \<open>
  C10: the handlers without retry answer 200, 400 or 500. Whenever the request passes
  their checks and at least one of the 4 backend calls is rejected, the answer is 500,
  with the message of a rejected call as details and no icons; every answer other than
  200 has no \<open>icons\<close> field; a 200 answer carries exactly 4 icons, each an object of
  \<open>url\<close> and \<open>prompt\<close> only (no \<open>seed\<close>). Each task's outcome is that of its one
  call: a backend that agrees on the first 4 calls gives the same answer.
\<close>

theorem simpleHandler_all_or_nothing:
  "statusCode (simpleHandler B prompt style brandColors) \<in> {200, 400, 500}
   \<and> (statusCode (simpleHandler B prompt style brandColors) = 200
        \<longrightarrow> (\<exists>icons. body (simpleHandler B prompt style brandColors)
                        = JObj [(js ''success'', JBool True), (js ''icons'', JArr icons)]
                \<and> length icons = 4
                \<and> (\<forall>icon \<in> set icons. fieldNames icon = [js ''url'', js ''prompt''])))
   \<and> (statusCode (simpleHandler B prompt style brandColors) \<noteq> 200
        \<longrightarrow> js ''icons'' \<notin> set (fieldNames (body (simpleHandler B prompt style brandColors))))
   \<and> (truthy prompt \<and> truthy style \<and> STYLE_PROMPTS_at style = Inr q \<and> truthyProperty q
        \<and> simpleColorInstruction brandColors = Inr ci \<and> ToString prompt = Inr p
        \<and> (\<exists>i<4. isl (snd (B i (simpleInput p (propertyText q) ci i))))
        \<longrightarrow> statusCode (simpleHandler B prompt style brandColors) = 500
          \<and> (\<exists>j<4. \<exists>e. snd (B j (simpleInput p (propertyText q) ci j)) = Inl e
                \<and> body (simpleHandler B prompt style brandColors)
                    = JObj [(js ''error'', JStr (js ''Failed to generate icons'')),
                            (js ''details'', JStr (message e))]))
   \<and> ((\<forall>k<4. \<forall>inp. B' k inp = B k inp)
        \<longrightarrow> simpleHandler B' prompt style brandColors = simpleHandler B prompt style brandColors)"
proof -
  let ?r = "simpleHandler B prompt style brandColors"
  have err: "?r = \<lparr>statusCode = 500,
        body = JObj [(js ''error'', JStr (js ''Failed to generate icons'')),
                     (js ''details'', JStr (message e))]\<rparr>"
    if "simpleTry B prompt style brandColors = Inl e" for e
    using that by (simp add: simpleHandler_def errorBody_def jsonObject_def)
  have shape: "(statusCode ?r = 500 \<and> (\<exists>e. body ?r = JObj [(js ''error'', JStr (js ''Failed to generate icons'')),
                     (js ''details'', JStr (message e))]))
      \<or> (statusCode ?r = 400 \<and> (\<exists>m. body ?r = JObj [(js ''error'', JStr m)]))
      \<or> (statusCode ?r = 200 \<and> (\<exists>icons. body ?r
            = JObj [(js ''success'', JBool True), (js ''icons'', JArr icons)]
          \<and> length icons = 4
          \<and> (\<forall>icon \<in> set icons. fieldNames icon = [js ''url'', js ''prompt''])))"
  proof (cases "simpleTry B prompt style brandColors")
    case (Inl e)
    from err [OF Inl] show ?thesis by auto
  next
    case (Inr r)
    then have r: "?r = r" by (simp add: simpleHandler_def)
    from simpleTry_Inr [OF Inr] show ?thesis
    proof
      assume "statusCode r = 400 \<and> (\<exists>m. body r = JObj [(js ''error'', JStr m)])"
      then show ?thesis unfolding r by blast
    next
      assume "statusCode r = 200
           \<and> (\<exists>q ci results. STYLE_PROMPTS_at style = Inr q
                \<and> simpleColorInstruction brandColors = Inr ci
                \<and> Promise_all (map (simpleTask B prompt (propertyText q) ci) [0..<4]) = Inr results
                \<and> body r = JObj [(js ''success'', JBool True),
                     (js ''icons'', JArr (map simpleIconJson (sort_key s_index results)))])"
      then obtain q ci results where ok: "statusCode r = 200"
        "Promise_all (map (simpleTask B prompt (propertyText q) ci) [0..<4]) = Inr results"
        "body r = JObj [(js ''success'', JBool True),
                     (js ''icons'', JArr (map simpleIconJson (sort_key s_index results)))]"
        by blast
      from ok(2) have "length results = 4"
        by (simp add: Promise_all_Inr fulfilled_length)
      then have "length (map simpleIconJson (sort_key s_index results)) = 4"
        by simp
      moreover have "\<forall>icon \<in> set (map simpleIconJson (sort_key s_index results)).
          fieldNames icon = [js ''url'', js ''prompt'']"
        by (auto simp: simpleIconJson_fields)
      ultimately show ?thesis
        unfolding r using ok(1,3) by blast
    qed
  qed
  have 1: "statusCode ?r \<in> {200, 400, 500}"
    using shape by auto
  have 2: "statusCode ?r = 200
        \<longrightarrow> (\<exists>icons. body ?r = JObj [(js ''success'', JBool True), (js ''icons'', JArr icons)]
                \<and> length icons = 4
                \<and> (\<forall>icon \<in> set icons. fieldNames icon = [js ''url'', js ''prompt'']))"
    using shape by auto
  have 3: "statusCode ?r \<noteq> 200 \<longrightarrow> js ''icons'' \<notin> set (fieldNames (body ?r))"
    using shape by (auto simp: js_def)
  have 4: "truthy prompt \<and> truthy style \<and> STYLE_PROMPTS_at style = Inr q \<and> truthyProperty q
        \<and> simpleColorInstruction brandColors = Inr ci \<and> ToString prompt = Inr p
        \<and> (\<exists>i<4. isl (snd (B i (simpleInput p (propertyText q) ci i))))
        \<longrightarrow> statusCode ?r = 500
          \<and> (\<exists>j<4. \<exists>e. snd (B j (simpleInput p (propertyText q) ci j)) = Inl e
                \<and> body ?r = JObj [(js ''error'', JStr (js ''Failed to generate icons'')),
                            (js ''details'', JStr (message e))])"
  proof
    assume a: "truthy prompt \<and> truthy style \<and> STYLE_PROMPTS_at style = Inr q \<and> truthyProperty q
        \<and> simpleColorInstruction brandColors = Inr ci \<and> ToString prompt = Inr p
        \<and> (\<exists>i<4. isl (snd (B i (simpleInput p (propertyText q) ci i))))"
    then obtain i where i: "i < 4" "isl (snd (B i (simpleInput p (propertyText q) ci i)))"
      by blast
    from a i obtain e j where e: "simpleTry B prompt style brandColors = Inl e" "j < 4"
      "snd (B j (simpleInput p (propertyText q) ci j)) = Inl e"
      using simpleTry_fails [of prompt style q brandColors ci p i B] by blast
    from err [OF e(1)] e(2,3) show "statusCode ?r = 500
          \<and> (\<exists>j<4. \<exists>e. snd (B j (simpleInput p (propertyText q) ci j)) = Inl e
                \<and> body ?r = JObj [(js ''error'', JStr (js ''Failed to generate icons'')),
                            (js ''details'', JStr (message e))])"
      by auto
  qed
  have 5: "(\<forall>k<4. \<forall>inp. B' k inp = B k inp)
        \<longrightarrow> simpleHandler B' prompt style brandColors = ?r"
  proof
    assume "\<forall>k<4. \<forall>inp. B' k inp = B k inp"
    then have "simpleTry B' prompt style brandColors = simpleTry B prompt style brandColors"
      by (rule simpleTry_cong)
    then show "simpleHandler B' prompt style brandColors = ?r"
      by (simp add: simpleHandler_def)
  qed
  from 1 2 3 4 5 show ?thesis
    by (intro conjI)
qed

theorem simpleHandler_all_or_nothing_witness:
  "statusCode (simpleHandler failsOnce (JStr (js ''Toys'')) (JNum 1) JUndefined) = 500
   \<and> js ''icons'' \<notin> set (fieldNames (body (simpleHandler failsOnce (JStr (js ''Toys'')) (JNum 1) JUndefined)))
   \<and> statusCode (simpleHandler failsLast (JStr (js ''Toys'')) (JNum 1) JUndefined) = 200
   \<and> length (case field (body (simpleHandler failsLast (JStr (js ''Toys'')) (JNum 1) JUndefined))
                    (js ''icons'') of JArr icons \<Rightarrow> icons | _ \<Rightarrow> []) = 4"
proof -
  have q: "STYLE_PROMPTS_at (JNum 1) = Inr (getProperty STYLE_PROMPTS [49])"
    "truthyProperty (getProperty STYLE_PROMPTS [49])"
    by (simp_all add: STYLE_PROMPTS_at_def NumberToString_def digits.simps js_def
        getProperty_def STYLE_PROMPTS_def)
  have b: "statusCode (simpleHandler failsLast (JStr (js ''Toys'')) (JNum 1) JUndefined) = 200"
    by (simp add: simpleHandler_def simpleTry_def q simpleColorInstruction_def
        simpleTask_def simpleInput_def failsLast_def Promise_all_def upt_rec js_def)
  note once = simpleHandler_all_or_nothing
    [where B = failsOnce and B' = failsOnce and prompt = "JStr (js ''Toys'')" and style = "JNum 1"
       and brandColors = JUndefined and q = "getProperty STYLE_PROMPTS [49]" and ci = "[]"
       and p = "js ''Toys''"]
  have "isl (snd (failsOnce 0 (simpleInput (js ''Toys'')
          (propertyText (getProperty STYLE_PROMPTS [49])) [] 0)))"
    by (simp add: failsOnce_def)
  then have "\<exists>i<4. isl (snd (failsOnce i (simpleInput (js ''Toys'')
          (propertyText (getProperty STYLE_PROMPTS [49])) [] i)))"
    by (intro exI [of _ 0]) simp
  then have h: "truthy (JStr (js ''Toys'')) \<and> truthy (JNum 1)
      \<and> STYLE_PROMPTS_at (JNum 1) = Inr (getProperty STYLE_PROMPTS [49])
      \<and> truthyProperty (getProperty STYLE_PROMPTS [49])
      \<and> simpleColorInstruction JUndefined = Inr [] \<and> ToString (JStr (js ''Toys'')) = Inr (js ''Toys'')
      \<and> (\<exists>i<4. isl (snd (failsOnce i (simpleInput (js ''Toys'')
            (propertyText (getProperty STYLE_PROMPTS [49])) [] i))))"
    by (simp add: q simpleColorInstruction_def) (simp add: js_def)
  from once [THEN conjunct2, THEN conjunct2, THEN conjunct2, THEN conjunct1, THEN mp, OF h]
  have a: "statusCode (simpleHandler failsOnce (JStr (js ''Toys'')) (JNum 1) JUndefined) = 500"
    by (rule conjunct1)
  note last = simpleHandler_all_or_nothing
    [where B = failsLast and B' = failsLast and prompt = "JStr (js ''Toys'')" and style = "JNum 1"
       and brandColors = JUndefined and q = Absent and ci = "[]" and p = "[]"]
  from once [THEN conjunct2, THEN conjunct2, THEN conjunct1] a
  have c: "js ''icons'' \<notin> set (fieldNames (body (simpleHandler failsOnce (JStr (js ''Toys'')) (JNum 1) JUndefined)))"
    by simp
  from last [THEN conjunct2, THEN conjunct1] b
  obtain icons where "body (simpleHandler failsLast (JStr (js ''Toys'')) (JNum 1) JUndefined)
      = JObj [(js ''success'', JBool True), (js ''icons'', JArr icons)]" "length icons = 4"
    by auto
  then have "length (case field (body (simpleHandler failsLast (JStr (js ''Toys'')) (JNum 1) JUndefined))
                    (js ''icons'') of JArr icons \<Rightarrow> icons | _ \<Rightarrow> []) = 4"
    by (simp add: js_def)
  with a b c show ?thesis by simp
qed

end
